theory Spec2Isabelle
  imports Complex_Main "HOL-Library.AList" "HOL-Library.List_Lexorder"
begin

section \<open>Python values: errors\<close>

text \<open>
  The exceptions the modelled code can raise. A function that can raise returns
  \<open>error + 'a\<close>, with \<open>Inl\<close> the exception. \<open>ValueError\<close> carries its message.
\<close>

datatype error = ValueError string | ZeroDivisionError | IndexError

text \<open>Python's \<open>a // b\<close> on integers: floor division, \<open>ZeroDivisionError\<close> when \<open>b = 0\<close>.\<close>

definition py_floordiv :: "int \<Rightarrow> int \<Rightarrow> error + int" where
  "py_floordiv a b = (if b = 0 then Inl ZeroDivisionError else Inr (a div b))"

section \<open>NumPy floating-point values\<close>

text \<open>
  A float64 value is a finite number, an infinity or not-a-number. Finite values are
  modelled as exact reals: rounding is left out, and positive and negative zero are not
  told apart (a division by zero takes the sign of the dividend). NumPy array
  arithmetic never raises on these values: it returns an infinity or NaN.
\<close>

datatype npfloat = Fin real | PInf | NInf | NaN

fun fsgn :: "npfloat \<Rightarrow> real" where
  "fsgn (Fin a) = sgn a"
| "fsgn PInf = 1"
| "fsgn NInf = - 1"
| "fsgn NaN = 0"

definition inf_of_sign :: "real \<Rightarrow> npfloat" where
  "inf_of_sign s = (if 0 < s then PInf else if s < 0 then NInf else NaN)"

fun fneg :: "npfloat \<Rightarrow> npfloat" where
  "fneg (Fin a) = Fin (- a)"
| "fneg PInf = NInf"
| "fneg NInf = PInf"
| "fneg NaN = NaN"

fun fadd :: "npfloat \<Rightarrow> npfloat \<Rightarrow> npfloat" where
  "fadd (Fin a) (Fin b) = Fin (a + b)"
| "fadd NaN y = NaN"
| "fadd x NaN = NaN"
| "fadd PInf NInf = NaN"
| "fadd NInf PInf = NaN"
| "fadd PInf y = PInf"
| "fadd x PInf = PInf"
| "fadd NInf y = NInf"
| "fadd x NInf = NInf"

definition fsub :: "npfloat \<Rightarrow> npfloat \<Rightarrow> npfloat" where
  "fsub x y = fadd x (fneg y)"

text \<open>
  A product with an infinity is an infinity of the product's sign, and NaN when the
  other factor is zero.
\<close>

fun fmul :: "npfloat \<Rightarrow> npfloat \<Rightarrow> npfloat" where
  "fmul (Fin a) (Fin b) = Fin (a * b)"
| "fmul NaN y = NaN"
| "fmul x NaN = NaN"
| "fmul x y = inf_of_sign (fsgn x * fsgn y)"

text \<open>
  A quotient of finite values with divisor zero is an infinity of the dividend's
  sign, NaN for \<open>0 / 0\<close>; a finite value over an infinity is zero; an infinity over an
  infinity is NaN.
\<close>

fun fdiv :: "npfloat \<Rightarrow> npfloat \<Rightarrow> npfloat" where
  "fdiv (Fin a) (Fin b) = (if b = 0 then inf_of_sign a else Fin (a / b))"
| "fdiv NaN y = NaN"
| "fdiv x NaN = NaN"
| "fdiv (Fin a) y = Fin 0"
| "fdiv x (Fin b) = inf_of_sign (fsgn x * (if b < 0 then - 1 else 1))"
| "fdiv x y = NaN"

text \<open>\<open>numpy.sqrt\<close>: NaN on a negative argument.\<close>

fun fsqrt :: "npfloat \<Rightarrow> npfloat" where
  "fsqrt (Fin a) = (if a < 0 then NaN else Fin (sqrt a))"
| "fsqrt PInf = PInf"
| "fsqrt NInf = NaN"
| "fsqrt NaN = NaN"

text \<open>Comparisons: every comparison with NaN is false.\<close>

fun fle :: "npfloat \<Rightarrow> npfloat \<Rightarrow> bool" where
  "fle (Fin a) (Fin b) = (a \<le> b)"
| "fle NaN y = False"
| "fle x NaN = False"
| "fle NInf y = True"
| "fle x PInf = True"
| "fle PInf y = False"
| "fle x NInf = False"

definition fgt :: "npfloat \<Rightarrow> npfloat \<Rightarrow> bool" where
  "fgt x y = (fle y x \<and> \<not> fle x y)"

text \<open>The sum of the entries of a vector (\<open>numpy.sum\<close>, and the sums inside a dot product).\<close>

primrec fsum :: "npfloat list \<Rightarrow> npfloat" where
  "fsum [] = Fin 0"
| "fsum (x # xs) = fadd x (fsum xs)"

section \<open>Daily returns (utils.py, calculate_daily_returns)\<close>

text \<open>
  A data frame is its column labels and its rows of cells (the date index is left out).
  A price frame holds finite numbers; a frame of returns holds floating-point values,
  which can be NaN or infinite.
\<close>

record 'a dataframe =
  df_columns :: "string list"
  df_rows :: "'a list list"

text \<open>
  One cell of \<open>DataFrame.pct_change()\<close>: the price over the previous price, less one,
  in floating point (\<open>0 / 0\<close> is NaN, a non-zero price over zero is an infinity).
\<close>

definition simple_change :: "real \<Rightarrow> real \<Rightarrow> npfloat" where
  "simple_change p q = fsub (fdiv (Fin p) (Fin q)) (Fin 1)"

text \<open>
  \<open>DataFrame.pct_change()\<close>: the first row has no previous row and is NaN in every
  column; each later row is compared with the row before it.
\<close>

definition pct_change :: "real dataframe \<Rightarrow> npfloat dataframe" where
  "pct_change prices =
     \<lparr> df_columns = df_columns prices,
       df_rows = (case df_rows prices of
                    [] \<Rightarrow> []
                  | first # later \<Rightarrow>
                      map (\<lambda>c. NaN) (df_columns prices)
                      # map2 (\<lambda>cur prev. map2 simple_change cur prev) later (df_rows prices)) \<rparr>"

text \<open>\<open>DataFrame.dropna()\<close>: the rows with a NaN cell are removed.\<close>

definition dropna :: "npfloat dataframe \<Rightarrow> npfloat dataframe" where
  "dropna frame = frame \<lparr> df_rows := filter (\<lambda>row. NaN \<notin> set row) (df_rows frame) \<rparr>"

text \<open>
  Line 15: \<^verbatim>\<open>return prices.pct_change().dropna()\<close>. Nothing in it raises;
  the result type still has room for an error, so that a claim that the call fails can
  be stated.
\<close>

definition calculate_daily_returns :: "real dataframe \<Rightarrow> error + npfloat dataframe" where
  "calculate_daily_returns prices = Inr (dropna (pct_change prices))"

section \<open>Weight sampler (utils.py, generate_valid_weights)\<close>

text \<open>
  The random generator is a parameter: \<open>rng k i j\<close> is the entry in row \<open>i\<close>, column
  \<open>j\<close> of the array that the \<open>k\<close>-th call of \<open>numpy.random.random\<close> returns. The call
  \<^verbatim>\<open>np.random.random((rows, cols))\<close> returns finite values.
\<close>

definition random_sample :: "(nat \<Rightarrow> nat \<Rightarrow> nat \<Rightarrow> real) \<Rightarrow> nat \<Rightarrow> nat \<Rightarrow> nat \<Rightarrow> npfloat list list" where
  "random_sample rng k rows cols = map (\<lambda>i. map (\<lambda>j. Fin (rng k i j)) [0..<cols]) [0..<rows]"

text \<open>Line 100: \<^verbatim>\<open>weights / weights.sum(axis=1, keepdims=True)\<close>, on one row.\<close>

definition normalize_row :: "npfloat list \<Rightarrow> npfloat list" where
  "normalize_row row = map (\<lambda>w. fdiv w (fsum row)) row"

text \<open>Line 101: \<^verbatim>\<open>np.all(weights <= 0.2, axis=1)\<close>, on one row.\<close>

definition valid_row :: "npfloat list \<Rightarrow> bool" where
  "valid_row row = list_all (\<lambda>w. fle w (Fin (2 / 10))) row"

text \<open>
  Lines 89-109. The result is \<open>None\<close> when the call does not return, \<open>Some (Inl e)\<close>
  when it raises (a negative dimension given to \<open>numpy.random.random\<close>) and
  \<open>Some (Inr weights)\<close> when it returns. The recursive call has the same arguments; only
  the generator has moved on to its next call.
\<close>

partial_function (option) generate_valid_weights ::
  "(nat \<Rightarrow> nat \<Rightarrow> nat \<Rightarrow> real) \<Rightarrow> nat \<Rightarrow> int \<Rightarrow> int \<Rightarrow> (error + npfloat list list) option" where
  "generate_valid_weights rng k n_assets n_simulations =
     (let multiplier = 3;
          target_weights = min (n_simulations * multiplier) 10000
      in if target_weights < 0 \<or> n_assets < 0
         then Some (Inl (ValueError ''negative dimensions are not allowed''))
         else
           let weights = random_sample rng k (nat target_weights) (nat n_assets);
               weights = map normalize_row weights;
               valid_weights = filter valid_row weights
           in if int (length valid_weights) < n_simulations
              then generate_valid_weights rng (Suc k) n_assets n_simulations
              else Some (Inr (take (nat n_simulations) valid_weights)))"

text \<open>
  The rows that survive the filter in the \<open>k\<close>-th attempt (lines 97-102), and the
  condition under which \<open>numpy.random.random\<close> refuses the shape.
\<close>

definition valid_weights_at :: "(nat \<Rightarrow> nat \<Rightarrow> nat \<Rightarrow> real) \<Rightarrow> nat \<Rightarrow> int \<Rightarrow> int \<Rightarrow> npfloat list list" where
  "valid_weights_at rng k n_assets n_simulations =
     filter valid_row (map normalize_row
       (random_sample rng k (nat (min (n_simulations * 3) 10000)) (nat n_assets)))"

definition bad_dims :: "int \<Rightarrow> int \<Rightarrow> bool" where
  "bad_dims n s = (min (s * 3) 10000 < 0 \<or> n < 0)"

text \<open>
  What a returned value of generate_valid_weights looks like: the error for a refused
  shape, or the first \<open>n_simulations\<close> surviving rows of some later attempt that has
  enough of them.
\<close>

definition gvw_post :: "(nat \<Rightarrow> nat \<Rightarrow> nat \<Rightarrow> real) \<Rightarrow> nat \<Rightarrow> int \<Rightarrow> int \<Rightarrow> error + npfloat list list \<Rightarrow> bool" where
  "gvw_post rng k n s y =
     (if bad_dims n s then y = Inl (ValueError ''negative dimensions are not allowed'')
      else \<exists>k'\<ge>k. s \<le> int (length (valid_weights_at rng k' n s))
                     \<and> y = Inr (take (nat s) (valid_weights_at rng k' n s)))"

text \<open>A generator whose every draw is the same number, for concrete runs.\<close>

definition constant_rng :: "real \<Rightarrow> nat \<Rightarrow> nat \<Rightarrow> nat \<Rightarrow> real" where
  "constant_rng c k i j = c"

section \<open>Combination enumerator (utils.py, get_stock_combinations)\<close>

text \<open>
  \<open>itertools.combinations(pool, r)\<close>: the \<open>r\<close>-length subsequences of \<open>pool\<close>,
  emitted in lexicographic order of their positions in \<open>pool\<close>. Every
  subsequence that starts with the first element comes before every one that does not.
\<close>

fun itertools_combinations :: "'a list \<Rightarrow> nat \<Rightarrow> 'a list list" where
  "itertools_combinations pool 0 = [[]]"
| "itertools_combinations [] (Suc r) = []"
| "itertools_combinations (x # pool) (Suc r) =
     map ((#) x) (itertools_combinations pool r) @ itertools_combinations pool (Suc r)"

text \<open>
  Line 121: \<^verbatim>\<open>return list(combinations(all_stocks, n_select))\<close>. A negative
  \<open>n_select\<close> makes \<open>itertools.combinations\<close> raise \<open>ValueError\<close>.
\<close>

definition get_stock_combinations :: "'a list \<Rightarrow> int \<Rightarrow> error + 'a list list" where
  "get_stock_combinations all_stocks n_select =
     (if n_select < 0 then Inl (ValueError ''r must be non-negative'')
      else Inr (itertools_combinations all_stocks (nat n_select)))"

text \<open>
  The position of a symbol in the universe (Python's \<open>list.index\<close> for a symbol that
  occurs), and the order on tuples it induces: tuple \<open>a\<close> is before tuple \<open>b\<close> when
  the list of positions of \<open>a\<close> is lexicographically smaller than that of \<open>b\<close>.
\<close>

definition index_of :: "'a list \<Rightarrow> 'a \<Rightarrow> nat" where
  "index_of xs x = length (takeWhile (\<lambda>y. y \<noteq> x) xs)"

definition lex_before :: "'a list \<Rightarrow> 'a list \<Rightarrow> 'a list \<Rightarrow> bool" where
  "lex_before universe a b =
     (map (index_of universe) a < map (index_of universe) b)"

section \<open>Metrics kernel (utils.py)\<close>

text \<open>
  A returns array of shape (days, assets) is held as the list of its columns: one list
  of daily returns per asset, so \<open>returns_array[:, j]\<close> is the \<open>j\<close>-th element and
  \<open>returns_array.T\<close> is the list of variables \<open>numpy.cov\<close> expects. A batch of weight
  vectors is the list of its rows.
\<close>

text \<open>\<open>numpy.mean\<close> of one column: the sum over the count (\<open>0 / 0 = NaN\<close> on no rows).\<close>

definition np_mean :: "npfloat list \<Rightarrow> npfloat" where
  "np_mean xs = fdiv (fsum xs) (Fin (real (length xs)))"

text \<open>Lines 31 and 55: \<^verbatim>\<open>np.mean(returns_array, axis=0) * 252\<close>.\<close>

definition mean_returns :: "npfloat list list \<Rightarrow> npfloat list" where
  "mean_returns returns_array = map (\<lambda>col. fmul (np_mean col) (Fin 252)) returns_array"

text \<open>The inner product of two vectors of the same length.\<close>

definition dot :: "npfloat list \<Rightarrow> npfloat list \<Rightarrow> npfloat" where
  "dot xs ys = fsum (map2 fmul xs ys)"

text \<open>
  \<open>numpy.cov(X)\<close> with one variable per row of \<open>X\<close> and the default \<open>ddof = 1\<close>:
  the rows are centred on their means, multiplied with each other, and the products
  are scaled by \<open>1 / fact\<close>, where \<open>fact\<close> is the number of observations less one,
  replaced by \<open>0.0\<close> when that is not positive. For a single variable NumPy squeezes
  the result to a 0-dimensional array; the entries are the same, and the callers below
  say what they do with a 0-dimensional operand.
\<close>

definition np_cov :: "npfloat list list \<Rightarrow> npfloat list list" where
  "np_cov X =
     (let n_obs = (case X of [] \<Rightarrow> 0 | x # _ \<Rightarrow> length x);
          fact = (if int n_obs - 1 \<le> 0 then 0 else real n_obs - 1);
          centred = map (\<lambda>x. map (\<lambda>v. fsub v (np_mean x)) x) X
      in map (\<lambda>xi. map (\<lambda>xj. fmul (dot xi xj) (fdiv (Fin 1) (Fin fact))) centred) centred)"

text \<open>
  Lines 17-42. \<^verbatim>\<open>weights_batch @ mean_returns\<close> raises \<open>ValueError\<close> unless every
  weight row has one entry per asset column. Entry \<open>(i, j)\<close> of
  \<^verbatim>\<open>np.dot(weights_batch, cov_matrix.T)\<close> is the inner product of weight row \<open>i\<close> with
  row \<open>j\<close> of the covariance matrix. The divisions and square roots are array
  operations: they give an infinity or NaN and do not raise.
\<close>

definition calculate_portfolio_metrics_vectorized ::
  "npfloat list list \<Rightarrow> npfloat list list
     \<Rightarrow> error + (npfloat list \<times> npfloat list \<times> npfloat list)" where
  "calculate_portfolio_metrics_vectorized returns_array weights_batch =
     (if \<exists>w \<in> set weights_batch. length w \<noteq> length returns_array
      then Inl (ValueError ''matmul: mismatch in core dimension'')
      else
        let mean_rets = mean_returns returns_array;
            portfolio_returns = map (\<lambda>w. dot w mean_rets) weights_batch;
            cov_matrix = np_cov returns_array;
            cov_w = map (\<lambda>w. map (\<lambda>cov_row. dot w cov_row) cov_matrix) weights_batch;
            portfolio_variances = map2 (\<lambda>cw w. fsum (map2 fmul cw w)) cov_w weights_batch;
            portfolio_volatilities =
              map (\<lambda>v. fmul (fsqrt v) (fsqrt (Fin 252))) portfolio_variances;
            sharpe_ratios = map2 fdiv portfolio_returns portfolio_volatilities
        in Inr (sharpe_ratios, portfolio_returns, portfolio_volatilities))"

text \<open>
  The elementwise product of two one-dimensional arrays, with NumPy's broadcasting of
  a length-one operand; other length mismatches raise \<open>ValueError\<close>.
\<close>

definition np_multiply :: "npfloat list \<Rightarrow> npfloat list \<Rightarrow> error + npfloat list" where
  "np_multiply xs ys =
     (if length xs = length ys then Inr (map2 fmul xs ys)
      else if length xs = 1 then Inr (map (fmul (hd xs)) ys)
      else if length ys = 1 then Inr (map (\<lambda>x. fmul x (hd ys)) xs)
      else Inl (ValueError ''operands could not be broadcast together''))"

text \<open>Lines 44-56: \<^verbatim>\<open>float(np.sum(mean_returns * weights))\<close>.\<close>

definition calculate_portfolio_return :: "npfloat list list \<Rightarrow> npfloat list \<Rightarrow> error + npfloat" where
  "calculate_portfolio_return returns_array weights =
     (case np_multiply (mean_returns returns_array) weights of
        Inl e \<Rightarrow> Inl e
      | Inr products \<Rightarrow> Inr (fsum products))"

text \<open>
  Lines 58-73: \<^verbatim>\<open>weights @ cov_matrix @ weights\<close> with
  \<^verbatim>\<open>cov_matrix = np.cov(returns_array.T) * 252\<close>. With a single asset column the
  covariance is 0-dimensional and \<open>@\<close> raises \<open>ValueError\<close>; otherwise \<open>@\<close> raises
  unless the weights have one entry per asset. The product associates to the left:
  entry \<open>j\<close> of \<^verbatim>\<open>weights @ cov_matrix\<close> is the inner product of the weights with
  column \<open>j\<close> of the matrix.
\<close>

definition calculate_portfolio_volatility :: "npfloat list list \<Rightarrow> npfloat list \<Rightarrow> error + npfloat" where
  "calculate_portfolio_volatility returns_array weights =
     (let cov_matrix = map (map (\<lambda>c. fmul c (Fin 252))) (np_cov returns_array)
      in if length returns_array = 1
         then Inl (ValueError ''matmul: Input operand 1 does not have enough dimensions'')
         else if length weights \<noteq> length returns_array
         then Inl (ValueError ''matmul: mismatch in core dimension'')
         else
           let w_cov = map (\<lambda>j. dot weights (map (\<lambda>cov_row. cov_row ! j) cov_matrix))
                         [0..<length returns_array];
               portfolio_variance = dot w_cov weights
           in Inr (fsqrt portfolio_variance))"

text \<open>
  The quotient of two Python floats: \<open>ZeroDivisionError\<close> on a zero divisor, the
  floating-point quotient otherwise.
\<close>

definition py_float_div :: "npfloat \<Rightarrow> npfloat \<Rightarrow> error + npfloat" where
  "py_float_div x y = (if y = Fin 0 then Inl ZeroDivisionError else Inr (fdiv x y))"

text \<open>Lines 75-87.\<close>

definition calculate_sharpe_ratio :: "npfloat list list \<Rightarrow> npfloat list \<Rightarrow> error + npfloat" where
  "calculate_sharpe_ratio returns_array weights =
     (case calculate_portfolio_return returns_array weights of
        Inl e \<Rightarrow> Inl e
      | Inr portfolio_return \<Rightarrow>
          (case calculate_portfolio_volatility returns_array weights of
             Inl e \<Rightarrow> Inl e
           | Inr portfolio_volatility \<Rightarrow> py_float_div portfolio_return portfolio_volatility))"

text \<open>
  The annualized return, the variance and the annualized volatility that the batch
  computation assigns to one weight row.
\<close>

definition row_return :: "npfloat list list \<Rightarrow> npfloat list \<Rightarrow> npfloat" where
  "row_return returns_array w = dot w (mean_returns returns_array)"

definition row_variance :: "npfloat list list \<Rightarrow> npfloat list \<Rightarrow> npfloat" where
  "row_variance returns_array w = dot (map (dot w) (np_cov returns_array)) w"

definition row_volatility :: "npfloat list list \<Rightarrow> npfloat list \<Rightarrow> npfloat" where
  "row_volatility returns_array w = fmul (fsqrt (row_variance returns_array w)) (fsqrt (Fin 252))"

section \<open>Best portfolio of a batch (utils.py, find_best_portfolio_from_batch)\<close>

text \<open>
  The portfolio record: the dictionary with keys \<open>stocks\<close>, \<open>weights\<close>,
  \<open>sharpe_ratio\<close>, \<open>annual_return\<close> and \<open>annual_volatility\<close>. The weights dictionary
  is an association list in insertion order.
\<close>

record portfolio =
  stocks :: "string list"
  weights :: "(string \<times> npfloat) list"
  sharpe_ratio :: npfloat
  annual_return :: npfloat
  annual_volatility :: npfloat

text \<open>
  A dictionary built from key-value pairs in order, as a dict comprehension does: a key
  that comes again keeps its place and takes the later value.
\<close>

definition py_dict :: "('k \<times> 'v) list \<Rightarrow> ('k \<times> 'v) list" where
  "py_dict kvs = foldl (\<lambda>d (k, v). AList.update k v d) [] kvs"

text \<open>
  \<open>numpy.argmax\<close> on a one-dimensional float array: the running maximum is replaced
  by an entry that is not less than or equal to it, and the scan stops at a NaN, so
  the result is the position of the first NaN if there is one and of the first largest
  entry otherwise. An empty array raises \<open>ValueError\<close>.
\<close>

fun argmax_scan :: "npfloat \<Rightarrow> nat \<Rightarrow> nat \<Rightarrow> npfloat list \<Rightarrow> nat" where
  "argmax_scan mp max_ind i [] = max_ind"
| "argmax_scan mp max_ind i (x # xs) =
     (if mp = NaN then max_ind
      else if \<not> fle x mp then argmax_scan x i (Suc i) xs
      else argmax_scan mp max_ind (Suc i) xs)"

definition np_argmax :: "npfloat list \<Rightarrow> error + nat" where
  "np_argmax xs =
     (case xs of
        [] \<Rightarrow> Inl (ValueError ''attempt to get argmax of an empty sequence'')
      | x # rest \<Rightarrow> Inr (argmax_scan x 0 1 rest))"

text \<open>Lines 139-162.\<close>

definition find_best_portfolio_from_batch ::
  "npfloat list list \<Rightarrow> npfloat list list \<Rightarrow> string list \<Rightarrow> error + portfolio" where
  "find_best_portfolio_from_batch returns_array weights_batch combination =
     (case calculate_portfolio_metrics_vectorized returns_array weights_batch of
        Inl e \<Rightarrow> Inl e
      | Inr (sharpe_ratios, returns, volatilities) \<Rightarrow>
          (case np_argmax sharpe_ratios of
             Inl e \<Rightarrow> Inl e
           | Inr best_idx \<Rightarrow>
               Inr \<lparr> stocks = combination,
                     weights = py_dict (zip combination (weights_batch ! best_idx)),
                     sharpe_ratio = sharpe_ratios ! best_idx,
                     annual_return = returns ! best_idx,
                     annual_volatility = volatilities ! best_idx \<rparr>))"

section \<open>Per-combination evaluator (portfolio_optimizer.py, process_stock_combination)\<close>

text \<open>
  Line 21: \<^verbatim>\<open>returns_array[:, column_indices]\<close>. An index counts from the end when
  negative, and one outside the columns raises \<open>IndexError\<close>.
\<close>

definition select_column :: "npfloat list list \<Rightarrow> int \<Rightarrow> error + npfloat list" where
  "select_column returns_array i =
     (let n = int (length returns_array); j = (if i < 0 then n + i else i)
      in if 0 \<le> j \<and> j < n then Inr (returns_array ! nat j) else Inl IndexError)"

fun select_columns :: "npfloat list list \<Rightarrow> int list \<Rightarrow> error + npfloat list list" where
  "select_columns returns_array [] = Inr []"
| "select_columns returns_array (i # column_indices) =
     (case select_column returns_array i of
        Inl e \<Rightarrow> Inl e
      | Inr col \<Rightarrow>
          (case select_columns returns_array column_indices of
             Inl e \<Rightarrow> Inl e
           | Inr cols \<Rightarrow> Inr (col # cols)))"

text \<open>
  Lines 20-27, the body of the \<open>try\<close>: \<open>None\<close> when the sampler does not return,
  \<open>Some (Inl e)\<close> when an exception is raised, \<open>Some (Inr record)\<close> otherwise.
\<close>

definition process_stock_combination_body ::
  "(nat \<Rightarrow> nat \<Rightarrow> nat \<Rightarrow> real) \<Rightarrow> nat \<Rightarrow> string list \<Rightarrow> npfloat list list \<Rightarrow> int list \<Rightarrow> int
     \<Rightarrow> (error + portfolio) option" where
  "process_stock_combination_body rng k combination returns_array column_indices n_simulations =
     (case select_columns returns_array column_indices of
        Inl e \<Rightarrow> Some (Inl e)
      | Inr selected_returns \<Rightarrow>
          (case generate_valid_weights rng k (int (length combination)) n_simulations of
             None \<Rightarrow> None
           | Some (Inl e) \<Rightarrow> Some (Inl e)
           | Some (Inr weights_batch) \<Rightarrow>
               Some (find_best_portfolio_from_batch selected_returns weights_batch combination)))"

text \<open>
  Lines 12-30: the \<open>try\<close> with its handler \<^verbatim>\<open>except Exception\<close>, which prints and
  returns \<open>None\<close>. The result says whether the call raises (\<open>Inl\<close>) or returns
  (\<open>Inr\<close>) a record or Python's \<open>None\<close>.
\<close>

definition process_stock_combination ::
  "(nat \<Rightarrow> nat \<Rightarrow> nat \<Rightarrow> real) \<Rightarrow> nat \<Rightarrow> string list \<Rightarrow> npfloat list list \<Rightarrow> int list \<Rightarrow> int
     \<Rightarrow> (error + portfolio option) option" where
  "process_stock_combination rng k combination returns_array column_indices n_simulations =
     (case process_stock_combination_body rng k combination returns_array column_indices
             n_simulations of
        None \<Rightarrow> None
      | Some (Inl e) \<Rightarrow> Some (Inr None)
      | Some (Inr result) \<Rightarrow> Some (Inr (Some result)))"

section \<open>Work distributor: chunking (portfolio_optimizer.py, optimize_portfolio)\<close>

text \<open>
  Lines 81-88: the chunk size when the caller gives none.
  \<^verbatim>\<open>chunk_size = max(1, total_combinations // (n_workers * chunks_per_worker))\<close>,
  \<^verbatim>\<open>chunk_size = min(chunk_size, 250)\<close>, with \<open>chunks_per_worker = 4\<close>.
\<close>

definition auto_chunk_size :: "int \<Rightarrow> int \<Rightarrow> error + int" where
  "auto_chunk_size total_combinations n_workers =
     (case py_floordiv total_combinations (n_workers * 4) of
        Inl e \<Rightarrow> Inl e
      | Inr q \<Rightarrow> Inr (min (max 1 q) 250))"

text \<open>Line 92: \<^verbatim>\<open>n_chunks = max(1, len(combinations) // chunk_size)\<close>.\<close>

definition n_chunks_of :: "int \<Rightarrow> int \<Rightarrow> error + int" where
  "n_chunks_of total_combinations chunk_size =
     (case py_floordiv total_combinations chunk_size of
        Inl e \<Rightarrow> Inl e
      | Inr q \<Rightarrow> Inr (max 1 q))"

text \<open>
  \<open>numpy.array_split(ary, n)\<close> along the first axis: with
  \<open>(each, extras) = divmod(len(ary), n)\<close> the first \<open>extras\<close> sections have
  \<open>each + 1\<close> elements and the other \<open>n - extras\<close> have \<open>each\<close>; a section count
  that is not positive raises \<open>ValueError\<close>.
\<close>

fun split_sizes :: "'a list \<Rightarrow> nat list \<Rightarrow> 'a list list" where
  "split_sizes ary [] = []"
| "split_sizes ary (s # ss) = take s ary # split_sizes (drop s ary) ss"

definition array_split :: "'a list \<Rightarrow> int \<Rightarrow> error + 'a list list" where
  "array_split ary n =
     (if n \<le> 0 then Inl (ValueError ''number sections must be larger than 0.'')
      else let each = length ary div nat n; extras = length ary mod nat n
           in Inr (split_sizes ary (replicate extras (each + 1) @ replicate (nat n - extras) each)))"

text \<open>
  Lines 80-93 together: the chunks handed to the pool, from the combination list, the
  worker count and the optional caller-supplied chunk size.
\<close>

definition split_combinations :: "'a list \<Rightarrow> int \<Rightarrow> int option \<Rightarrow> error + 'a list list" where
  "split_combinations combinations n_workers chunk_size =
     (case (case chunk_size of
              None \<Rightarrow> auto_chunk_size (int (length combinations)) n_workers
            | Some c \<Rightarrow> Inr c) of
        Inl e \<Rightarrow> Inl e
      | Inr cs \<Rightarrow>
          (case n_chunks_of (int (length combinations)) cs of
             Inl e \<Rightarrow> Inl e
           | Inr n \<Rightarrow> array_split combinations n))"

section \<open>Reduction to the best portfolio (portfolio_optimizer.py)\<close>

text \<open>
  Python's \<^verbatim>\<open>max(results, key=lambda x: x['sharpe_ratio'])\<close>: the first element is
  the running maximum, and a later element replaces it when its key is greater. An
  empty argument raises \<open>ValueError\<close>.
\<close>

fun max_by_sharpe_scan :: "portfolio \<Rightarrow> portfolio list \<Rightarrow> portfolio" where
  "max_by_sharpe_scan best [] = best"
| "max_by_sharpe_scan best (p # ps) =
     (if fgt (sharpe_ratio p) (sharpe_ratio best) then max_by_sharpe_scan p ps
      else max_by_sharpe_scan best ps)"

definition py_max_by_sharpe :: "portfolio list \<Rightarrow> error + portfolio" where
  "py_max_by_sharpe results =
     (case results of
        [] \<Rightarrow> Inl (ValueError ''max() arg is an empty sequence'')
      | p # ps \<Rightarrow> Inr (max_by_sharpe_scan p ps))"

text \<open>
  Lines 105-111 of optimize_portfolio and lines 149-155 of
  optimize_portfolio_sequential: the same guard and the same selection. The handler
  around them prints the exception and raises it again, so the error that leaves the
  function is the one raised here.
\<close>

definition select_best :: "portfolio list \<Rightarrow> error + portfolio" where
  "select_best results =
     (if results = []
      then Inl (ValueError ''No valid portfolios found. All combinations failed.'')
      else py_max_by_sharpe results)"

text \<open>
  Line 103:
  \<^verbatim>\<open>[portfolio for chunk in chunk_results for portfolio in chunk if portfolio is not None]\<close>.
\<close>

definition flatten_results :: "portfolio option list list \<Rightarrow> portfolio list" where
  "flatten_results chunk_results = [p. chunk \<leftarrow> chunk_results, Some p \<leftarrow> chunk]"

text \<open>The reduction of the parallel path, from the per-chunk lists the pool returns.\<close>

definition reduce_parallel :: "portfolio option list list \<Rightarrow> error + portfolio" where
  "reduce_parallel chunk_results = select_best (flatten_results chunk_results)"

text \<open>The reduction of the sequential path, from the list of collected records.\<close>

definition reduce_sequential :: "portfolio list \<Rightarrow> error + portfolio" where
  "reduce_sequential results = select_best results"

section \<open>Concrete inputs\<close>

text \<open>
  Returns arrays with two daily rows: two assets with constant returns, two assets with
  moving returns, and a single asset.
\<close>

definition flat_returns :: "npfloat list list" where
  "flat_returns = [[Fin (1 / 100), Fin (1 / 100)], [Fin (2 / 100), Fin (2 / 100)]]"

definition moving_returns :: "npfloat list list" where
  "moving_returns = [[Fin (1 / 100), Fin (3 / 100)], [Fin (2 / 100), Fin (5 / 100)]]"

definition single_asset_returns :: "npfloat list list" where
  "single_asset_returns = [[Fin (1 / 100), Fin (3 / 100)]]"

text \<open>
  Five assets whose prices never move, the weight row the sampler produces for them
  from constant draws, and their symbols.
\<close>

definition still_returns :: "npfloat list list" where
  "still_returns = [[Fin 0, Fin 0], [Fin 0, Fin 0], [Fin 0, Fin 0], [Fin 0, Fin 0], [Fin 0, Fin 0]]"

definition fifths :: "npfloat list" where
  "fifths = [Fin (1 / 5), Fin (1 / 5), Fin (1 / 5), Fin (1 / 5), Fin (1 / 5)]"

definition five_stocks :: "string list" where
  "five_stocks = [''A'', ''B'', ''C'', ''D'', ''E'']"






text \<open>Portfolio records with a NaN, a larger and a smaller Sharpe ratio.\<close>

definition nan_record :: portfolio where
  "nan_record = \<lparr> stocks = five_stocks,
                  weights = [(''A'', Fin (1 / 5)), (''B'', Fin (1 / 5)), (''C'', Fin (1 / 5)),
                             (''D'', Fin (1 / 5)), (''E'', Fin (1 / 5))],
                  sharpe_ratio = NaN, annual_return = Fin 0, annual_volatility = Fin 0 \<rparr>"

definition good_record :: portfolio where
  "good_record = \<lparr> stocks = [''B'', ''C'', ''D'', ''E'', ''F''],
                   weights = [(''B'', Fin (1 / 5)), (''C'', Fin (1 / 5)), (''D'', Fin (1 / 5)),
                              (''E'', Fin (1 / 5)), (''F'', Fin (1 / 5))],
                   sharpe_ratio = Fin 2, annual_return = Fin (1 / 2),
                   annual_volatility = Fin (1 / 4) \<rparr>"

definition fair_record :: portfolio where
  "fair_record = \<lparr> stocks = [''A'', ''C'', ''D'', ''E'', ''F''],
                   weights = [(''A'', Fin (1 / 5)), (''C'', Fin (1 / 5)), (''D'', Fin (1 / 5)),
                              (''E'', Fin (1 / 5)), (''F'', Fin (1 / 5))],
                   sharpe_ratio = Fin 1, annual_return = Fin (1 / 4),
                   annual_volatility = Fin (1 / 4) \<rparr>"

text \<open>
  Price frames of two assets: a single day, three days, and three days on which the
  second asset has no price for the first two.
\<close>

definition one_day_prices :: "real dataframe" where
  "one_day_prices = \<lparr> df_columns = [''A'', ''B''], df_rows = [[100, 50]] \<rparr>"

definition three_day_prices :: "real dataframe" where
  "three_day_prices = \<lparr> df_columns = [''A'', ''B''], df_rows = [[100, 50], [110, 40], [99, 50]] \<rparr>"

definition halted_prices :: "real dataframe" where
  "halted_prices = \<lparr> df_columns = [''A'', ''B''], df_rows = [[100, 0], [110, 0], [99, 50]] \<rparr>"

section \<open>Daily returns: properties\<close>

lemma simple_change_nan: "simple_change p q = NaN \<longleftrightarrow> p = 0 \<and> q = 0"
  by (auto simp: simple_change_def fsub_def inf_of_sign_def)

lemma simple_change_finite: "q \<noteq> 0 \<Longrightarrow> simple_change p q = Fin (p / q - 1)"
  by (simp add: simple_change_def fsub_def)

lemma change_row_no_nan:
  assumes "\<forall>j < length cur. j < length prev \<longrightarrow> \<not> (cur ! j = 0 \<and> prev ! j = 0)"
  shows "NaN \<notin> set (map2 simple_change cur prev)"
proof
  assume "NaN \<in> set (map2 simple_change cur prev)"
  then obtain p q where pq: "(p, q) \<in> set (zip cur prev)" and nan: "simple_change p q = NaN"
    by auto
  from pq obtain j where "j < length cur" "j < length prev" "cur ! j = p" "prev ! j = q"
    by (auto simp: in_set_zip)
  with assms nan show False
    by (auto simp: simple_change_nan)
qed

lemma changes_no_nan:
  assumes "\<forall>t. Suc t < length rs \<longrightarrow>
             (\<forall>j < length (rs ! Suc t). j < length (rs ! t)
                  \<longrightarrow> \<not> (rs ! Suc t ! j = 0 \<and> rs ! t ! j = 0))"
  shows "\<forall>row \<in> set (map2 (\<lambda>cur prev. map2 simple_change cur prev) (tl rs) rs). NaN \<notin> set row"
proof
  fix row
  assume "row \<in> set (map2 (\<lambda>cur prev. map2 simple_change cur prev) (tl rs) rs)"
  then obtain cur prev where cp: "(cur, prev) \<in> set (zip (tl rs) rs)"
      and row: "row = map2 simple_change cur prev"
    by auto
  from cp obtain t where t: "t < length (tl rs)" "t < length rs" "tl rs ! t = cur" "rs ! t = prev"
    by (auto simp: in_set_zip)
  then have "Suc t < length rs" and "rs ! Suc t = cur"
    by (simp_all add: nth_tl)
  with assms t(4) have "\<forall>j < length cur. j < length prev \<longrightarrow> \<not> (cur ! j = 0 \<and> prev ! j = 0)"
    by blast
  then show "NaN \<notin> set row"
    unfolding row by (rule change_row_no_nan)
qed

text \<open>
  Claim C6, amended. calculate_daily_returns never fails. For a price frame with at
  least one column: with fewer than 2 rows it returns a frame with the same columns
  and no rows; with at least 2 rows, and no asset at price zero on two consecutive
  rows, it returns the same columns and exactly one row fewer, row \<open>t\<close> holding the
  simple percentage change of each column from price row \<open>t\<close> to price row
  \<open>t + 1\<close>, which is \<open>p / q - 1\<close> when the earlier price \<open>q\<close> is not zero.
\<close>

theorem daily_returns_rows:
  assumes "df_columns prices \<noteq> []"
  shows "(\<exists>returns. calculate_daily_returns prices = Inr returns)
         \<and> (length (df_rows prices) < 2 \<longrightarrow>
              calculate_daily_returns prices
                = Inr \<lparr> df_columns = df_columns prices, df_rows = [] \<rparr>)
         \<and> (2 \<le> length (df_rows prices)
              \<and> (\<forall>t. Suc t < length (df_rows prices) \<longrightarrow>
                    (\<forall>j < length (df_rows prices ! Suc t). j < length (df_rows prices ! t)
                       \<longrightarrow> \<not> (df_rows prices ! Suc t ! j = 0 \<and> df_rows prices ! t ! j = 0)))
            \<longrightarrow> (\<exists>returns. calculate_daily_returns prices = Inr returns
                   \<and> df_columns returns = df_columns prices
                   \<and> length (df_rows returns) = length (df_rows prices) - 1
                   \<and> (\<forall>t < length (df_rows returns).
                         df_rows returns ! t
                           = map2 simple_change (df_rows prices ! Suc t) (df_rows prices ! t))))
         \<and> (\<forall>p q. q \<noteq> 0 \<longrightarrow> simple_change p q = Fin (p / q - 1))"
proof (intro conjI impI)
  show "\<exists>returns. calculate_daily_returns prices = Inr returns"
    by (simp add: calculate_daily_returns_def)
next
  assume "length (df_rows prices) < 2"
  then consider "df_rows prices = []" | r where "df_rows prices = [r]"
    by (cases "df_rows prices"; cases "tl (df_rows prices)") auto
  then show "calculate_daily_returns prices = Inr \<lparr> df_columns = df_columns prices, df_rows = [] \<rparr>"
  proof cases
    case 1
    then show ?thesis
      by (simp add: calculate_daily_returns_def dropna_def pct_change_def)
  next
    case 2
    have "NaN \<in> set (map (\<lambda>c. NaN) (df_columns prices))"
      using assms by (cases "df_columns prices") simp_all
    with 2 show ?thesis
      by (simp add: calculate_daily_returns_def dropna_def pct_change_def)
  qed
next
  assume h: "2 \<le> length (df_rows prices)
              \<and> (\<forall>t. Suc t < length (df_rows prices) \<longrightarrow>
                    (\<forall>j < length (df_rows prices ! Suc t). j < length (df_rows prices ! t)
                       \<longrightarrow> \<not> (df_rows prices ! Suc t ! j = 0 \<and> df_rows prices ! t ! j = 0)))"
  let ?rs = "df_rows prices"
  let ?changes = "map2 (\<lambda>cur prev. map2 simple_change cur prev) (tl ?rs) ?rs"
  obtain first later where rs: "?rs = first # later"
    using h by (cases ?rs) auto
  have keep: "filter (\<lambda>row. NaN \<notin> set row) ?changes = ?changes"
    using changes_no_nan [of ?rs] h by (simp add: filter_id_conv)
  have "pct_change prices
          = \<lparr> df_columns = df_columns prices,
              df_rows = map (\<lambda>c. NaN) (df_columns prices) # ?changes \<rparr>"
    by (simp add: pct_change_def rs)
  moreover have "NaN \<in> set (map (\<lambda>c. NaN) (df_columns prices))"
    using assms by (cases "df_columns prices") simp_all
  ultimately have res: "calculate_daily_returns prices
          = Inr \<lparr> df_columns = df_columns prices, df_rows = ?changes \<rparr>"
    using keep by (simp add: calculate_daily_returns_def dropna_def)
  have len: "length ?changes = length ?rs - 1"
    by simp
  have nth: "?changes ! t = map2 simple_change (?rs ! Suc t) (?rs ! t)" if "t < length ?changes" for t
    using that by (simp add: nth_tl)
  show "\<exists>returns. calculate_daily_returns prices = Inr returns
                   \<and> df_columns returns = df_columns prices
                   \<and> length (df_rows returns) = length (df_rows prices) - 1
                   \<and> (\<forall>t < length (df_rows returns).
                         df_rows returns ! t
                           = map2 simple_change (df_rows prices ! Suc t) (df_rows prices ! t))"
    using res len nth by (intro exI [of _ "\<lparr> df_columns = df_columns prices, df_rows = ?changes \<rparr>"]) simp
next
  show "\<forall>p q. q \<noteq> 0 \<longrightarrow> simple_change p q = Fin (p / q - 1)"
    by (simp add: simple_change_finite)
qed

lemmas daily_eval = calculate_daily_returns_def dropna_def pct_change_def simple_change_def
  fsub_def inf_of_sign_def

lemma daily_three:
  "calculate_daily_returns three_day_prices
     = Inr \<lparr> df_columns = [''A'', ''B''],
             df_rows = [[Fin (1 / 10), Fin (- (1 / 5))], [Fin (- (1 / 10)), Fin (1 / 4)]] \<rparr>"
  by (simp add: daily_eval three_day_prices_def)

lemma daily_one:
  "calculate_daily_returns one_day_prices = Inr \<lparr> df_columns = [''A'', ''B''], df_rows = [] \<rparr>"
  by (simp add: daily_eval one_day_prices_def)

theorem daily_returns_rows_witness:
  "df_columns three_day_prices \<noteq> []
   \<and> 2 \<le> length (df_rows three_day_prices)
   \<and> calculate_daily_returns three_day_prices
       = Inr \<lparr> df_columns = [''A'', ''B''],
               df_rows = [[Fin (1 / 10), Fin (- (1 / 5))], [Fin (- (1 / 10)), Fin (1 / 4)]] \<rparr>
   \<and> length [[Fin (1 / 10), Fin (- (1 / 5))], [Fin (- (1 / 10)), Fin (1 / 4 :: real)]]
       = length (df_rows three_day_prices) - 1
   \<and> df_columns one_day_prices \<noteq> []
   \<and> length (df_rows one_day_prices) < 2
   \<and> calculate_daily_returns one_day_prices = Inr \<lparr> df_columns = [''A'', ''B''], df_rows = [] \<rparr>"
proof -
  have c3: "df_columns three_day_prices \<noteq> []" and c1: "df_columns one_day_prices \<noteq> []"
    by (simp_all add: three_day_prices_def one_day_prices_def)
  have l3: "2 \<le> length (df_rows three_day_prices)" and l1: "length (df_rows one_day_prices) < 2"
    by (simp_all add: three_day_prices_def one_day_prices_def)
  have nz: "\<forall>t. Suc t < length (df_rows three_day_prices) \<longrightarrow>
              (\<forall>j < length (df_rows three_day_prices ! Suc t). j < length (df_rows three_day_prices ! t)
                 \<longrightarrow> \<not> (df_rows three_day_prices ! Suc t ! j = 0
                        \<and> df_rows three_day_prices ! t ! j = 0))"
    by (auto simp: three_day_prices_def nth_Cons' less_Suc_eq)
  from daily_returns_rows [OF c3] l3 nz
  obtain returns where r: "calculate_daily_returns three_day_prices = Inr returns"
      "length (df_rows returns) = length (df_rows three_day_prices) - 1"
    by blast
  have "returns = \<lparr> df_columns = [''A'', ''B''],
               df_rows = [[Fin (1 / 10), Fin (- (1 / 5))], [Fin (- (1 / 10)), Fin (1 / 4)]] \<rparr>"
    using r(1) daily_three by simp
  then have "length [[Fin (1 / 10), Fin (- (1 / 5))], [Fin (- (1 / 10)), Fin (1 / 4 :: real)]]
       = length (df_rows three_day_prices) - 1"
    using r(2) by simp
  moreover have "calculate_daily_returns one_day_prices
                   = Inr \<lparr> df_columns = df_columns one_day_prices, df_rows = [] \<rparr>"
    using daily_returns_rows [OF c1] l1 by blast
  ultimately show ?thesis
    using c3 c1 l3 l1 daily_three by (simp add: one_day_prices_def)
qed

text \<open>
  Claim C6 as stated fails in two places. On a single price row the call returns an
  empty frame and raises nothing. On three price rows of which the first two have a
  zero price for one asset, the change \<open>0 / 0\<close> is NaN and that row is dropped too: one
  row is left, not two.
\<close>

theorem daily_returns_counterexample:
  "length (df_rows one_day_prices) = 1
   \<and> calculate_daily_returns one_day_prices = Inr \<lparr> df_columns = [''A'', ''B''], df_rows = [] \<rparr>
   \<and> length (df_rows halted_prices) = 3
   \<and> calculate_daily_returns halted_prices
       = Inr \<lparr> df_columns = [''A'', ''B''], df_rows = [[Fin (- (1 / 10)), PInf]] \<rparr>"
  by (simp add: daily_eval one_day_prices_def halted_prices_def)

section \<open>Weight sampler: properties\<close>

lemma gvw_step:
  "(let multiplier = 3;
          target_weights = min (s * multiplier) 10000
      in if target_weights < 0 \<or> n < 0
         then Some (Inl (ValueError ''negative dimensions are not allowed''))
         else
           let batch = random_sample rng k (nat target_weights) (nat n);
               batch = map normalize_row batch;
               valid_weights = filter valid_row batch
           in if int (length valid_weights) < s
              then f rng (Suc k) n s
              else Some (Inr (take (nat s) valid_weights)))
   = (if bad_dims n s
      then Some (Inl (ValueError ''negative dimensions are not allowed''))
      else if int (length (valid_weights_at rng k n s)) < s
           then f rng (Suc k) n s
           else Some (Inr (take (nat s) (valid_weights_at rng k n s))))"
  unfolding valid_weights_at_def bad_dims_def Let_def by (rule refl)

lemma gvw_returns:
  assumes "generate_valid_weights rng k n s = Some y"
  shows "gvw_post rng k n s y"
proof (rule generate_valid_weights.raw_induct [where P = gvw_post, OF _ assms])
  fix f rng k n s y
  assume IH: "\<And>rng k n s y. f rng k n s = Some y \<Longrightarrow> gvw_post rng k n s y"
  assume "(let multiplier = 3;
          target_weights = min (s * multiplier) 10000
      in if target_weights < 0 \<or> n < 0
         then Some (Inl (ValueError ''negative dimensions are not allowed''))
         else
           let batch = random_sample rng k (nat target_weights) (nat n);
               batch = map normalize_row batch;
               valid_weights = filter valid_row batch
           in if int (length valid_weights) < s
              then f rng (Suc k) n s
              else Some (Inr (take (nat s) valid_weights))) = Some y"
  then have step: "(if bad_dims n s
      then Some (Inl (ValueError ''negative dimensions are not allowed''))
      else if int (length (valid_weights_at rng k n s)) < s
           then f rng (Suc k) n s
           else Some (Inr (take (nat s) (valid_weights_at rng k n s)))) = Some y"
    unfolding gvw_step .
  show "gvw_post rng k n s y"
  proof (cases "bad_dims n s")
    case True
    then show ?thesis
      using step by (auto simp: gvw_post_def)
  next
    case False
    show ?thesis
    proof (cases "int (length (valid_weights_at rng k n s)) < s")
      case True
      then have "f rng (Suc k) n s = Some y"
        using step False by simp
      from IH [OF this] False obtain k' where "Suc k \<le> k'"
        "s \<le> int (length (valid_weights_at rng k' n s))"
        "y = Inr (take (nat s) (valid_weights_at rng k' n s))"
        by (auto simp: gvw_post_def)
      then show ?thesis
        using False by (auto simp: gvw_post_def intro!: exI [of _ k'])
    next
      case nlt: False
      then have "y = Inr (take (nat s) (valid_weights_at rng k n s))"
        using step False by simp
      then show ?thesis
        using False nlt by (auto simp: gvw_post_def intro!: exI [of _ k])
    qed
  qed
qed

lemma fsum_Fin: "fsum (map Fin rs) = Fin (sum_list rs)"
  by (induction rs) simp_all

lemma fsum_map_Fin: "fsum (map (\<lambda>r. Fin (g r)) rs) = Fin (sum_list (map g rs))"
  by (induction rs) simp_all

lemma normalize_row_Fin:
  "normalize_row (map Fin rs) = map (\<lambda>r. fdiv (Fin r) (Fin (sum_list rs))) rs"
  by (simp add: normalize_row_def fsum_Fin comp_def)


lemma sum_list_neg:
  "xs \<noteq> [] \<Longrightarrow> (\<forall>x \<in> set xs. x < (0::real)) \<Longrightarrow> sum_list xs < 0"
  by (induction xs) (auto intro: add_neg_nonpos simp: sum_list_nonpos less_imp_le)

lemma sum_list_divide_const:
  "sum_list (map (\<lambda>r. r / t) rs) = sum_list rs / (t::real)"
  by (induction rs) (simp_all add: add_divide_distrib)

lemma fle_inf_of_sign: "fle (inf_of_sign r) (Fin c) \<longleftrightarrow> r < 0"
  by (simp add: inf_of_sign_def)

lemma valid_row_zero_sum:
  assumes "sum_list rs = 0" "rs \<noteq> []"
  shows "\<not> valid_row (normalize_row (map Fin rs))"
proof
  assume "valid_row (normalize_row (map Fin rs))"
  then have "\<forall>r \<in> set rs. r < 0"
    using assms(1)
    by (simp add: valid_row_def normalize_row_Fin list_all_iff fle_inf_of_sign)
  then have "sum_list rs < 0"
    using assms(2) by (simp add: sum_list_neg)
  then show False
    using assms(1) by simp
qed

lemma valid_row_nonzero_sum:
  assumes "sum_list rs \<noteq> 0"
  shows "normalize_row (map Fin rs) = map (\<lambda>r. Fin (r / sum_list rs)) rs"
    and "valid_row (normalize_row (map Fin rs)) \<longleftrightarrow> (\<forall>r \<in> set rs. r / sum_list rs \<le> 2 / 10)"
  using assms by (simp_all add: valid_row_def normalize_row_Fin list_all_iff)


lemma random_sample_rows:
  "row \<in> set (random_sample rng k rows cols) \<Longrightarrow>
     \<exists>i. row = map Fin (map (rng k i) [0..<cols])"
  by (auto simp: random_sample_def comp_def)




lemma valid_normalized_row:
  assumes nonneg: "\<forall>r \<in> set rs. 0 \<le> r" and ne: "rs \<noteq> []"
    and valid: "valid_row (normalize_row (map Fin rs))"
  shows "\<forall>w \<in> set (normalize_row (map Fin rs)). fle (Fin 0) w \<and> fle w (Fin (2 / 10))"
    and "fsum (normalize_row (map Fin rs)) = Fin 1"
proof -
  have nz: "sum_list rs \<noteq> 0"
    using valid_row_zero_sum [OF _ ne] valid by blast
  have "0 \<le> sum_list rs"
    using nonneg by (simp add: sum_list_nonneg)
  with nz have pos: "0 < sum_list rs"
    by simp
  have row: "normalize_row (map Fin rs) = map (\<lambda>r. Fin (r / sum_list rs)) rs"
    by (rule valid_row_nonzero_sum(1) [OF nz])
  have cap: "\<forall>r \<in> set rs. r / sum_list rs \<le> 2 / 10"
    using valid valid_row_nonzero_sum(2) [OF nz] by simp
  show "\<forall>w \<in> set (normalize_row (map Fin rs)). fle (Fin 0) w \<and> fle w (Fin (2 / 10))"
    unfolding row using nonneg pos cap by auto
  show "fsum (normalize_row (map Fin rs)) = Fin 1"
    unfolding row using nz by (simp add: fsum_map_Fin sum_list_divide_const)
qed

lemma valid_weights_at_rows:
  assumes nonneg: "\<forall>k i j. 0 \<le> rng k i j" and n: "1 \<le> n"
    and mem: "row \<in> set (valid_weights_at rng k n s)"
  shows "length row = nat n
         \<and> (\<forall>w \<in> set row. fle (Fin 0) w \<and> fle w (Fin (2 / 10)))
         \<and> fsum row = Fin 1"
proof -
  obtain raw where raw: "raw \<in> set (random_sample rng k (nat (min (s * 3) 10000)) (nat n))"
      and row: "row = normalize_row raw" and valid: "valid_row (normalize_row raw)"
    using mem by (auto simp: valid_weights_at_def)
  obtain i where i: "raw = map Fin (map (rng k i) [0..<nat n])"
    using random_sample_rows [OF raw] by blast
  define rs where "rs = map (rng k i) [0..<nat n]"
  have ne: "rs \<noteq> []"
    using n by (simp add: rs_def)
  have nn: "\<forall>r \<in> set rs. 0 \<le> r"
    using nonneg by (simp add: rs_def)
  have v: "valid_row (normalize_row (map Fin rs))"
    using valid i by (simp add: rs_def)
  have "length row = nat n"
    by (simp add: row i normalize_row_def)
  then show ?thesis
    using valid_normalized_row [OF nn ne v] row i by (simp add: rs_def)
qed

text \<open>
  Claim C1, amended. For \<open>n_assets \<ge> 1\<close>, \<open>n_simulations \<ge> 1\<close> and a generator
  that draws non-negative numbers: if generate_valid_weights returns, the result has
  exactly \<open>n_simulations\<close> rows, each of \<open>n_assets\<close> entries, every entry is at
  least 0 and at most 0.2, and each row sums to 1 (within \<open>1e-9\<close>).
\<close>

theorem sampled_weights_valid:
  assumes "1 \<le> n_assets" and "1 \<le> n_simulations"
    and "\<forall>k i j. 0 \<le> rng k i j"
    and "generate_valid_weights rng k n_assets n_simulations = Some (Inr batch)"
  shows "length batch = nat n_simulations
         \<and> (\<forall>row \<in> set batch.
               length row = nat n_assets
             \<and> (\<forall>w \<in> set row. fle (Fin 0) w \<and> fle w (Fin (2 / 10)))
             \<and> (\<exists>t. fsum row = Fin t \<and> \<bar>t - 1\<bar> \<le> 1 / 10 ^ 9))"
proof -
  have "gvw_post rng k n_assets n_simulations (Inr batch)"
    using assms(4) by (rule gvw_returns)
  then obtain k' where enough: "n_simulations \<le> int (length (valid_weights_at rng k' n_assets n_simulations))"
      and w: "batch = take (nat n_simulations) (valid_weights_at rng k' n_assets n_simulations)"
    by (auto simp: gvw_post_def split: if_splits)
  have len: "length batch = nat n_simulations"
    using enough w by simp
  have "length row = nat n_assets
         \<and> (\<forall>w \<in> set row. fle (Fin 0) w \<and> fle w (Fin (2 / 10)))
         \<and> (\<exists>t. fsum row = Fin t \<and> \<bar>t - 1\<bar> \<le> 1 / 10 ^ 9)"
    if mem: "row \<in> set batch" for row
  proof -
    have "row \<in> set (valid_weights_at rng k' n_assets n_simulations)"
      using mem w by (auto dest: in_set_takeD)
    from valid_weights_at_rows [OF assms(3) assms(1) this]
    show ?thesis
      by simp
  qed
  with len show ?thesis
    by blast
qed

lemma gvw_constant_5:
  "generate_valid_weights (constant_rng (1 / 2)) 0 5 1
     = Some (Inr [[Fin (1 / 5), Fin (1 / 5), Fin (1 / 5), Fin (1 / 5), Fin (1 / 5)]])"
  by (subst generate_valid_weights.simps)
     (simp add: random_sample_def normalize_row_def valid_row_def constant_rng_def upt_rec)

theorem sampled_weights_valid_witness:
  "(1::int) \<le> 5 \<and> (1::int) \<le> 1 \<and> (\<forall>k i j. 0 \<le> constant_rng (1 / 2) k i j)
   \<and> generate_valid_weights (constant_rng (1 / 2)) 0 5 1
        = Some (Inr [[Fin (1 / 5), Fin (1 / 5), Fin (1 / 5), Fin (1 / 5), Fin (1 / 5)]])
   \<and> length [[Fin (1 / 5), Fin (1 / 5), Fin (1 / 5), Fin (1 / 5), Fin (1 / 5)]] = nat 1
   \<and> fle (Fin 0) (Fin (1 / 5)) \<and> fle (Fin (1 / 5)) (Fin (2 / 10))
   \<and> fsum [Fin (1 / 5), Fin (1 / 5), Fin (1 / 5), Fin (1 / 5), Fin (1 / 5)] = Fin 1"
proof -
  have a: "(1::int) \<le> 5" and b: "(1::int) \<le> 1" by simp_all
  have c: "\<forall>k i j. 0 \<le> constant_rng (1 / 2) k i j"
    by (simp add: constant_rng_def)
  show ?thesis
    using a b c gvw_constant_5 sampled_weights_valid [OF a b c gvw_constant_5]
    by simp
qed

text \<open>
  Claim C1 as stated covers \<open>n_assets = 0\<close>. There the call returns
  \<open>n_simulations\<close> empty rows (an empty row passes the cap test), and an empty row sums
  to 0, not to 1.
\<close>

theorem zero_assets_counterexample:
  "generate_valid_weights (constant_rng (1 / 2)) 0 0 1 = Some (Inr [[]])
   \<and> fsum [] = Fin 0
   \<and> \<not> \<bar>(0::real) - 1\<bar> \<le> 1 / 10 ^ 9"
proof -
  have "generate_valid_weights (constant_rng (1 / 2)) 0 0 1 = Some (Inr [[]])"
    by (subst generate_valid_weights.simps)
       (simp add: random_sample_def normalize_row_def valid_row_def upt_rec)
  then show ?thesis
    by simp
qed

section \<open>Combination enumerator: properties\<close>

lemma length_combinations: "length (itertools_combinations pool r) = length pool choose r"
  by (induction pool r rule: itertools_combinations.induct) simp_all

lemma combinations_length:
  "c \<in> set (itertools_combinations pool r) \<Longrightarrow> length c = r"
  by (induction pool r arbitrary: c rule: itertools_combinations.induct) auto

lemma combinations_elem:
  "c \<in> set (itertools_combinations pool r) \<Longrightarrow> y \<in> set c \<Longrightarrow> y \<in> set pool"
proof (induction pool r arbitrary: c rule: itertools_combinations.induct)
  case (3 x pool r)
  from "3.prems"(1) consider c' where "c = x # c'" "c' \<in> set (itertools_combinations pool r)"
    | "c \<in> set (itertools_combinations pool (Suc r))"
    by auto
  then show ?case
  proof cases
    case 1
    then show ?thesis
      using "3.IH"(1) [of c'] "3.prems"(2) by auto
  next
    case 2
    then show ?thesis
      using "3.IH"(2) [of c] "3.prems"(2) by simp
  qed
qed simp_all

lemma combinations_subset:
  "c \<in> set (itertools_combinations pool r) \<Longrightarrow> set c \<subseteq> set pool"
  using combinations_elem by fastforce

lemma combinations_member:
  "c \<in> set (itertools_combinations pool r) \<Longrightarrow> length c = r \<and> set c \<subseteq> set pool"
  by (simp add: combinations_length combinations_subset)

lemma combinations_distinct:
  "distinct pool \<Longrightarrow> c \<in> set (itertools_combinations pool r) \<Longrightarrow> distinct c"
proof (induction pool r arbitrary: c rule: itertools_combinations.induct)
  case (3 x pool r)
  have notin: "x \<notin> set c'" if "c' \<in> set (itertools_combinations pool r)" for c'
    using that "3.prems"(1) combinations_subset [of c' pool r] by auto
  have dp: "distinct pool"
    using "3.prems"(1) by simp
  from "3.prems"(2) consider c' where "c = x # c'" "c' \<in> set (itertools_combinations pool r)"
    | "c \<in> set (itertools_combinations pool (Suc r))"
    by auto
  then show ?case
  proof cases
    case 1
    then show ?thesis
      using "3.IH"(1) [OF dp, of c'] notin by simp
  next
    case 2
    then show ?thesis
      using "3.IH"(2) [OF dp] by simp
  qed
qed simp_all

lemma combinations_distinct_sets:
  "distinct pool \<Longrightarrow> distinct (map set (itertools_combinations pool r))"
proof (induction pool r rule: itertools_combinations.induct)
  case (3 x pool r)
  have notin: "\<And>c k. c \<in> set (itertools_combinations pool k) \<Longrightarrow> x \<notin> set c"
    using 3(3) combinations_member [of _ pool] by auto
  have inj: "inj_on (\<lambda>c. insert x (set c)) (set (itertools_combinations pool r))"
  proof (rule inj_onI)
    fix a b
    assume a: "a \<in> set (itertools_combinations pool r)" and b: "b \<in> set (itertools_combinations pool r)"
      and eq: "insert x (set a) = insert x (set b)"
    have "set a = set b"
      using eq notin [OF a] notin [OF b] by auto
    moreover have "inj_on set (set (itertools_combinations pool r))"
      using 3 by (simp add: distinct_map)
    ultimately show "a = b"
      using a b by (auto dest: inj_onD)
  qed
  have d1: "distinct (map (\<lambda>c. insert x (set c)) (itertools_combinations pool r))"
    using 3 inj by (simp add: distinct_map)
  have d2: "distinct (map set (itertools_combinations pool (Suc r)))"
    using 3 by simp
  have disj: "(\<lambda>c. insert x (set c)) ` set (itertools_combinations pool r)
              \<inter> set ` set (itertools_combinations pool (Suc r)) = {}"
    using notin by auto
  show ?case
    using d1 d2 disj by (simp add: comp_def)
qed simp_all

lemma index_of_Cons:
  "index_of (x # xs) y = (if y = x then 0 else Suc (index_of xs y))"
  by (simp add: index_of_def)

lemma lexordp_map_Suc:
  "map Suc u < map Suc v \<longleftrightarrow> u < (v :: nat list)"
proof (induction u arbitrary: v)
  case Nil
  then show ?case by (cases v) simp_all
next
  case (Cons a u)
  then show ?case by (cases v) auto
qed

lemma lex_before_Cons_pool:
  assumes "x \<notin> set a" "x \<notin> set b"
  shows "lex_before (x # pool) a b \<longleftrightarrow> lex_before pool a b"
proof -
  have "\<And>c. x \<notin> set c \<Longrightarrow> map (index_of (x # pool)) c = map Suc (map (index_of pool) c)"
    by (auto simp: index_of_Cons)
  then show ?thesis
    using assms by (simp add: lex_before_def lexordp_map_Suc del: map_map)
qed

lemma combinations_sorted:
  "distinct pool \<Longrightarrow> sorted_wrt (lex_before pool) (itertools_combinations pool r)"
proof (induction pool r rule: itertools_combinations.induct)
  case (3 x pool r)
  have notin: "\<And>c k. c \<in> set (itertools_combinations pool k) \<Longrightarrow> x \<notin> set c"
    using 3(3) combinations_member [of _ pool] by auto
  have s1: "sorted_wrt (lex_before pool) (itertools_combinations pool r)"
    and s2: "sorted_wrt (lex_before pool) (itertools_combinations pool (Suc r))"
    using 3 by simp_all
  have with_x: "sorted_wrt (lex_before (x # pool)) (map ((#) x) (itertools_combinations pool r))"
  proof -
    have "\<And>a b. a \<in> set (itertools_combinations pool r) \<Longrightarrow> b \<in> set (itertools_combinations pool r)
            \<Longrightarrow> lex_before pool a b \<Longrightarrow> lex_before (x # pool) (x # a) (x # b)"
      using lex_before_Cons_pool [of x _ _ pool] notin
      by (simp add: lex_before_def index_of_Cons)
    then show ?thesis
      using s1 by (auto simp: sorted_wrt_map intro: sorted_wrt_mono_rel)
  qed
  have without_x: "sorted_wrt (lex_before (x # pool)) (itertools_combinations pool (Suc r))"
  proof -
    have "\<And>a b. a \<in> set (itertools_combinations pool (Suc r)) \<Longrightarrow> b \<in> set (itertools_combinations pool (Suc r))
            \<Longrightarrow> lex_before pool a b \<Longrightarrow> lex_before (x # pool) a b"
      using lex_before_Cons_pool [of x _ _ pool] notin by simp
    then show ?thesis
      using s2 by (auto intro: sorted_wrt_mono_rel)
  qed
  have cross: "lex_before (x # pool) (x # a) b"
    if mem: "b \<in> set (itertools_combinations pool (Suc r))" for a b
  proof -
    obtain y ys where b: "b = y # ys"
      using combinations_length [OF mem] by (cases b) auto
    have "y \<noteq> x"
      using notin [OF mem] b by auto
    then show ?thesis
      by (simp add: lex_before_def index_of_Cons b)
  qed
  show ?case
    using with_x without_x cross by (auto simp: sorted_wrt_append)
qed simp_all

text \<open>
  Claim C3. For a universe of \<open>n\<close> distinct symbols and a subset size \<open>k\<close>
  (not negative, where \<open>itertools.combinations\<close> raises), get_stock_combinations
  returns exactly \<open>C(n, k)\<close> tuples; each has length \<open>k\<close>, no duplicate symbol and
  only symbols of the universe; no two tuples have the same set of symbols; and the
  tuples are in strictly increasing lexicographic order of their positions in the
  universe.
\<close>

theorem combinations_complete:
  assumes "distinct universe" and "0 \<le> k"
  shows "\<exists>cs. get_stock_combinations universe k = Inr cs
           \<and> length cs = length universe choose nat k
           \<and> (\<forall>c \<in> set cs. length c = nat k \<and> distinct c \<and> set c \<subseteq> set universe)
           \<and> distinct (map set cs)
           \<and> sorted_wrt (lex_before universe) cs"
proof -
  have res: "get_stock_combinations universe k = Inr (itertools_combinations universe (nat k))"
    using assms(2) by (simp add: get_stock_combinations_def)
  have each: "\<forall>c \<in> set (itertools_combinations universe (nat k)).
                length c = nat k \<and> distinct c \<and> set c \<subseteq> set universe"
    using combinations_length combinations_subset combinations_distinct [OF assms(1)]
    by blast
  show ?thesis
    using res each length_combinations [of universe "nat k"]
      combinations_distinct_sets [OF assms(1), of "nat k"]
      combinations_sorted [OF assms(1), of "nat k"]
    by blast
qed

theorem combinations_complete_witness:
  "distinct [''A'', ''B'', ''C'', ''D''] \<and> (0::int) \<le> 2
   \<and> get_stock_combinations [''A'', ''B'', ''C'', ''D''] 2
       = Inr [[''A'', ''B''], [''A'', ''C''], [''A'', ''D''],
              [''B'', ''C''], [''B'', ''D''], [''C'', ''D'']]
   \<and> length [''A'', ''B'', ''C'', ''D''] choose nat 2 = 6"
proof -
  have d: "distinct [''A'', ''B'', ''C'', ''D'']" by simp
  have k: "(0::int) \<le> 2" by simp
  have r: "get_stock_combinations [''A'', ''B'', ''C'', ''D''] 2
       = Inr [[''A'', ''B''], [''A'', ''C''], [''A'', ''D''],
              [''B'', ''C''], [''B'', ''D''], [''C'', ''D'']]"
    by (simp add: get_stock_combinations_def numeral_2_eq_2)
  obtain cs where cs: "get_stock_combinations [''A'', ''B'', ''C'', ''D''] 2 = Inr cs"
     "length cs = length [''A'', ''B'', ''C'', ''D''] choose nat 2"
    using combinations_complete [OF d k] by blast
  have "cs = [[''A'', ''B''], [''A'', ''C''], [''A'', ''D''],
              [''B'', ''C''], [''B'', ''D''], [''C'', ''D'']]"
    using cs(1) r by simp
  then have "length cs = 6"
    by simp
  then show ?thesis
    using d k r cs(2) by simp
qed

section \<open>Metrics kernel: properties\<close>

lemma fmul_commute: "fmul x y = fmul y x"
  by (cases x; cases y) (simp_all add: mult.commute)

lemma fadd_zero_right: "fadd x (Fin 0) = x"
  by (cases x) simp_all

lemma fmul_scale_assoc:
  "0 < c \<Longrightarrow> fmul a (fmul b (Fin c)) = fmul (fmul a b) (Fin c)"
  by (cases a; cases b)
     (auto simp: inf_of_sign_def sgn_if zero_less_mult_iff mult_less_0_iff)

lemma fmul_scale_swap:
  "0 < c \<Longrightarrow> fmul (fmul b (Fin c)) a = fmul (fmul b a) (Fin c)"
  using fmul_scale_assoc [of c a b] by (simp add: fmul_commute)

lemma fmul_scale_distrib:
  "0 < c \<Longrightarrow> fadd (fmul a (Fin c)) (fmul b (Fin c)) = fmul (fadd a b) (Fin c)"
  by (cases a; cases b)
     (auto simp: inf_of_sign_def sgn_if zero_less_mult_iff mult_less_0_iff algebra_simps)

lemma fsqrt_scale:
  "0 < c \<Longrightarrow> fsqrt (fmul v (Fin c)) = fmul (fsqrt v) (fsqrt (Fin c))"
  by (cases v)
     (auto simp: inf_of_sign_def sgn_if zero_less_mult_iff mult_less_0_iff real_sqrt_mult
        not_less mult_nonneg_nonneg)

lemma map2_fmul_commute: "map2 fmul xs ys = map2 fmul ys xs"
proof (induction xs arbitrary: ys)
  case Nil
  then show ?case by simp
next
  case (Cons x xs)
  then show ?case by (cases ys) (simp_all add: fmul_commute)
qed

lemma dot_commute: "dot xs ys = dot ys xs"
  by (simp add: dot_def map2_fmul_commute [of xs ys])

lemma dot_scale_right:
  "0 < c \<Longrightarrow> dot w (map (\<lambda>x. fmul x (Fin c)) row) = fmul (dot w row) (Fin c)"
proof (induction w arbitrary: row)
  case Nil
  then show ?case by (simp add: dot_def)
next
  case (Cons a w)
  show ?case
  proof (cases row)
    case Nil
    then show ?thesis by (simp add: dot_def)
  next
    case (Cons b row')
    have "dot (a # w) (map (\<lambda>x. fmul x (Fin c)) row)
            = fadd (fmul a (fmul b (Fin c))) (dot w (map (\<lambda>x. fmul x (Fin c)) row'))"
      by (simp add: dot_def Cons)
    also have "\<dots> = fadd (fmul (fmul a b) (Fin c)) (fmul (dot w row') (Fin c))"
      using Cons.IH [OF Cons.prems] Cons.prems by (simp add: fmul_scale_assoc)
    also have "\<dots> = fmul (fadd (fmul a b) (dot w row')) (Fin c)"
      using Cons.prems by (rule fmul_scale_distrib)
    finally show ?thesis
      by (simp add: dot_def Cons)
  qed
qed

lemma dot_scale_left:
  "0 < c \<Longrightarrow> dot (map (\<lambda>x. fmul x (Fin c)) v) w = fmul (dot v w) (Fin c)"
  using dot_scale_right [of c w v] by (simp add: dot_commute)

lemma length_np_cov: "length (np_cov X) = length X"
  by (simp add: np_cov_def Let_def)

lemma np_cov_row_length: "row \<in> set (np_cov X) \<Longrightarrow> length row = length X"
  by (auto simp: np_cov_def Let_def)

lemma np_cov_column:
  assumes "j < length X"
  shows "map (\<lambda>cov_row. cov_row ! j) (np_cov X) = np_cov X ! j"
  using assms by (simp add: np_cov_def Let_def dot_commute)

lemma scaled_cov_column:
  assumes "j < length X"
  shows "map (\<lambda>cov_row. cov_row ! j) (map (map g) (np_cov X)) = map g (np_cov X ! j)"
proof -
  have "map (\<lambda>cov_row. cov_row ! j) (map (map g) (np_cov X))
          = map (\<lambda>cov_row. g (cov_row ! j)) (np_cov X)"
    using assms np_cov_row_length [of _ X] by (simp add: comp_def)
  also have "\<dots> = map g (map (\<lambda>cov_row. cov_row ! j) (np_cov X))"
    by (simp add: comp_def)
  finally show ?thesis
    using np_cov_column [OF assms] by simp
qed

lemma map_nth_upt: "map (\<lambda>j. f (xs ! j)) [0..<length xs] = map f xs"
  by (rule nth_equalityI) simp_all

lemma map2_map_same: "map2 f (map g xs) xs = map (\<lambda>x. f (g x) x) xs"
  by (induction xs) simp_all

lemma map2_map_map: "map2 f (map g xs) (map h xs) = map (\<lambda>x. f (g x) (h x)) xs"
  by (induction xs) simp_all

lemma batch_rows:
  assumes "\<forall>w \<in> set weights_batch. length w = length returns_array"
  shows "calculate_portfolio_metrics_vectorized returns_array weights_batch
           = Inr (map (\<lambda>w. fdiv (row_return returns_array w) (row_volatility returns_array w))
                    weights_batch,
                  map (row_return returns_array) weights_batch,
                  map (row_volatility returns_array) weights_batch)"
proof -
  have shape: "\<not> (\<exists>w \<in> set weights_batch. length w \<noteq> length returns_array)"
    using assms by simp
  have var: "map2 (\<lambda>cw w. fsum (map2 fmul cw w))
               (map (\<lambda>w. map (\<lambda>cov_row. dot w cov_row) (np_cov returns_array)) weights_batch)
               weights_batch
             = map (row_variance returns_array) weights_batch"
    by (simp add: map2_map_same row_variance_def dot_def [symmetric])
  have vol: "map (\<lambda>v. fmul (fsqrt v) (fsqrt (Fin 252)))
               (map (row_variance returns_array) weights_batch)
             = map (row_volatility returns_array) weights_batch"
    by (simp add: row_volatility_def comp_def)
  have ret: "map (\<lambda>w. dot w (mean_returns returns_array)) weights_batch
             = map (row_return returns_array) weights_batch"
    by (simp add: row_return_def)
  show ?thesis
    unfolding calculate_portfolio_metrics_vectorized_def Let_def var vol ret
    using shape by (simp add: map2_map_map)
qed

lemma single_return:
  assumes "length wts = length returns_array"
  shows "calculate_portfolio_return returns_array wts = Inr (row_return returns_array wts)"
proof -
  have "np_multiply (mean_returns returns_array) wts
          = Inr (map2 fmul (mean_returns returns_array) wts)"
    using assms by (simp add: np_multiply_def mean_returns_def)
  then show ?thesis
    by (simp add: calculate_portfolio_return_def row_return_def dot_def
        map2_fmul_commute [of wts])
qed

lemma single_volatility:
  assumes "length returns_array \<noteq> 1" and "length wts = length returns_array"
  shows "calculate_portfolio_volatility returns_array wts
           = Inr (row_volatility returns_array wts)"
proof -
  let ?cov = "np_cov returns_array"
  let ?scaled = "map (map (\<lambda>c. fmul c (Fin 252))) ?cov"
  have pointwise: "dot wts (map (\<lambda>cov_row. cov_row ! j) ?scaled)
                     = fmul (dot wts (?cov ! j)) (Fin 252)"
    if "j < length returns_array" for j
  proof -
    have "map (\<lambda>cov_row. cov_row ! j) ?scaled = map (\<lambda>c. fmul c (Fin 252)) (?cov ! j)"
      using that by (rule scaled_cov_column)
    then show ?thesis
      by (simp only: dot_scale_right [of 252, simplified])
  qed
  have "map (\<lambda>j. dot wts (map (\<lambda>cov_row. cov_row ! j) ?scaled)) [0..<length returns_array]
          = map (\<lambda>j. fmul (dot wts (?cov ! j)) (Fin 252)) [0..<length returns_array]"
  proof (rule map_cong [OF refl])
    fix j assume "j \<in> set [0..<length returns_array]"
    then have "j < length returns_array"
      by simp
    then show "dot wts (map (\<lambda>cov_row. cov_row ! j) ?scaled)
                 = fmul (dot wts (?cov ! j)) (Fin 252)"
      by (rule pointwise)
  qed
  also have "\<dots> = map (\<lambda>x. fmul x (Fin 252)) (map (\<lambda>j. dot wts (?cov ! j)) [0..<length ?cov])"
    by (simp add: length_np_cov comp_def)
  also have "map (\<lambda>j. dot wts (?cov ! j)) [0..<length ?cov] = map (dot wts) ?cov"
    by (rule map_nth_upt)
  finally have w_cov:
    "map (\<lambda>j. dot wts (map (\<lambda>cov_row. cov_row ! j) ?scaled)) [0..<length returns_array]
       = map (\<lambda>x. fmul x (Fin 252)) (map (dot wts) ?cov)" .
  have "dot (map (\<lambda>x. fmul x (Fin 252)) (map (dot wts) ?cov)) wts
          = fmul (dot (map (dot wts) ?cov) wts) (Fin 252)"
    by (rule dot_scale_left) simp
  then have "fsqrt (dot (map (\<lambda>x. fmul x (Fin 252)) (map (dot wts) ?cov)) wts)
          = fsqrt (fmul (dot (map (dot wts) ?cov) wts) (Fin 252))"
    by (simp only:)
  also have "\<dots> = fmul (fsqrt (dot (map (dot wts) ?cov) wts)) (fsqrt (Fin 252))"
    by (rule fsqrt_scale) simp
  finally have "fsqrt (dot (map (\<lambda>x. fmul x (Fin 252)) (map (dot wts) ?cov)) wts)
          = row_volatility returns_array wts"
    unfolding row_volatility_def row_variance_def .
  then show ?thesis
    unfolding calculate_portfolio_volatility_def Let_def w_cov
    using assms by simp
qed

lemma single_sharpe:
  assumes "length returns_array \<noteq> 1" and "length wts = length returns_array"
  shows "calculate_sharpe_ratio returns_array wts
           = (if row_volatility returns_array wts = Fin 0 then Inl ZeroDivisionError
              else Inr (fdiv (row_return returns_array wts)
                             (row_volatility returns_array wts)))"
  by (simp add: calculate_sharpe_ratio_def single_return [OF assms(2)]
      single_volatility [OF assms] py_float_div_def)

text \<open>
  Claim C2, amended. For a returns array whose number of asset columns is not 1 and a
  batch whose rows all have one weight per column, the batch computation returns three
  arrays with one entry per row, and for each row \<open>i\<close>: calculate_portfolio_return
  returns the batch's annualized return, calculate_portfolio_volatility returns the
  batch's annualized volatility, and calculate_sharpe_ratio returns the batch's Sharpe
  ratio unless that volatility is zero, where it raises \<open>ZeroDivisionError\<close> (the
  batch holds an infinity or NaN there). The equalities are exact: finite values are
  exact reals, and infinities and NaN are covered.
\<close>

theorem batch_equals_single:
  assumes "length returns_array \<noteq> 1"
    and "\<forall>w \<in> set weights_batch. length w = length returns_array"
  shows "\<exists>sharpe_ratios portfolio_returns portfolio_volatilities.
           calculate_portfolio_metrics_vectorized returns_array weights_batch
             = Inr (sharpe_ratios, portfolio_returns, portfolio_volatilities)
         \<and> length sharpe_ratios = length weights_batch
         \<and> length portfolio_returns = length weights_batch
         \<and> length portfolio_volatilities = length weights_batch
         \<and> (\<forall>i < length weights_batch.
               calculate_portfolio_return returns_array (weights_batch ! i)
                 = Inr (portfolio_returns ! i)
             \<and> calculate_portfolio_volatility returns_array (weights_batch ! i)
                 = Inr (portfolio_volatilities ! i)
             \<and> calculate_sharpe_ratio returns_array (weights_batch ! i)
                 = (if portfolio_volatilities ! i = Fin 0 then Inl ZeroDivisionError
                    else Inr (sharpe_ratios ! i)))"
proof -
  have each: "length (weights_batch ! i) = length returns_array" if "i < length weights_batch" for i
    using assms(2) that by simp
  show ?thesis
    using batch_rows [OF assms(2)] each
    by (simp add: single_return single_volatility [OF assms(1)] single_sharpe [OF assms(1)])
qed

lemmas metrics_eval = calculate_portfolio_metrics_vectorized_def mean_returns_def np_mean_def
  dot_def np_cov_def fsub_def Let_def inf_of_sign_def

lemmas single_eval = calculate_sharpe_ratio_def calculate_portfolio_return_def
  calculate_portfolio_volatility_def np_multiply_def py_float_div_def mean_returns_def
  np_mean_def dot_def np_cov_def fsub_def Let_def inf_of_sign_def upt_rec

lemma metrics_moving:
  "calculate_portfolio_metrics_vectorized moving_returns [[Fin (1 / 2), Fin (1 / 2)]]
     = Inr ([Fin (693 / (100 * (sqrt (1 / 3200) * sqrt 252)))],
            [Fin (693 / 100)],
            [Fin (sqrt (1 / 3200) * sqrt 252)])"
  by (simp add: metrics_eval moving_returns_def)

theorem batch_equals_single_witness:
  "length moving_returns \<noteq> 1
   \<and> calculate_portfolio_metrics_vectorized moving_returns [[Fin (1 / 2), Fin (1 / 2)]]
       = Inr ([Fin (693 / (100 * (sqrt (1 / 3200) * sqrt 252)))],
              [Fin (693 / 100)],
              [Fin (sqrt (1 / 3200) * sqrt 252)])
   \<and> calculate_portfolio_return moving_returns [Fin (1 / 2), Fin (1 / 2)]
       = Inr (Fin (693 / 100))
   \<and> calculate_portfolio_volatility moving_returns [Fin (1 / 2), Fin (1 / 2)]
       = Inr (Fin (sqrt (1 / 3200) * sqrt 252))
   \<and> calculate_sharpe_ratio moving_returns [Fin (1 / 2), Fin (1 / 2)]
       = Inr (Fin (693 / (100 * (sqrt (1 / 3200) * sqrt 252))))"
proof -
  have h1: "length moving_returns \<noteq> 1"
    by (simp add: moving_returns_def)
  have h2: "\<forall>w \<in> set [[Fin (1 / 2), Fin (1 / 2)]]. length w = length moving_returns"
    by (simp add: moving_returns_def)
  show ?thesis
    using h1 metrics_moving batch_equals_single [OF h1 h2]
    by auto
qed

text \<open>
  Claim C2 as stated fails in two places. With constant returns the volatility of
  every weight row is zero: the batch holds \<open>+inf\<close> as Sharpe ratio, and
  calculate_sharpe_ratio raises \<open>ZeroDivisionError\<close>. With a single asset column the
  batch returns its three arrays, and calculate_portfolio_volatility raises
  \<open>ValueError\<close>.
\<close>

theorem batch_equals_single_counterexample:
  "calculate_portfolio_metrics_vectorized flat_returns [[Fin (1 / 2), Fin (1 / 2)]]
     = Inr ([PInf], [Fin (189 / 50)], [Fin 0])
   \<and> calculate_sharpe_ratio flat_returns [Fin (1 / 2), Fin (1 / 2)] = Inl ZeroDivisionError
   \<and> calculate_portfolio_metrics_vectorized single_asset_returns [[Fin 1]]
     = Inr ([Fin (126 / (25 * (sqrt (1 / 5000) * sqrt 252)))],
            [Fin (126 / 25)],
            [Fin (sqrt (1 / 5000) * sqrt 252)])
   \<and> calculate_portfolio_volatility single_asset_returns [Fin 1]
     = Inl (ValueError ''matmul: Input operand 1 does not have enough dimensions'')"
proof -
  have "calculate_portfolio_metrics_vectorized flat_returns [[Fin (1 / 2), Fin (1 / 2)]]
     = Inr ([PInf], [Fin (189 / 50)], [Fin 0])"
    by (simp add: metrics_eval flat_returns_def)
  moreover have "calculate_sharpe_ratio flat_returns [Fin (1 / 2), Fin (1 / 2)]
     = Inl ZeroDivisionError"
    by (simp add: single_eval flat_returns_def)
  moreover have "calculate_portfolio_metrics_vectorized single_asset_returns [[Fin 1]]
     = Inr ([Fin (126 / (25 * (sqrt (1 / 5000) * sqrt 252)))],
            [Fin (126 / 25)],
            [Fin (sqrt (1 / 5000) * sqrt 252)])"
    by (simp add: metrics_eval single_asset_returns_def)
  moreover have "calculate_portfolio_volatility single_asset_returns [Fin 1]
     = Inl (ValueError ''matmul: Input operand 1 does not have enough dimensions'')"
    by (simp add: calculate_portfolio_volatility_def single_asset_returns_def Let_def)
  ultimately show ?thesis
    by blast
qed

section \<open>Selection of the best row: properties\<close>

lemma fle_refl: "x \<noteq> NaN \<Longrightarrow> fle x x"
  by (cases x) simp_all

lemma fle_trans: "fle x y \<Longrightarrow> fle y z \<Longrightarrow> fle x z"
  by (cases x; cases y; cases z) simp_all

lemma fle_total: "x \<noteq> NaN \<Longrightarrow> y \<noteq> NaN \<Longrightarrow> fle x y \<or> fle y x"
  by (cases x; cases y) auto

lemma fle_NaN [simp]: "\<not> fle x NaN" "\<not> fle NaN x"
  by (cases x; simp)+

lemma argmax_scan_max:
  assumes "mi < length pre" and "pre ! mi = mp" and "i = length pre"
    and "\<forall>y \<in> set pre. fle y mp" and "\<forall>j < mi. \<not> fle mp (pre ! j)"
    and "NaN \<notin> set (pre @ xs)"
  shows "argmax_scan mp mi i xs < length (pre @ xs)
         \<and> (\<forall>y \<in> set (pre @ xs). fle y ((pre @ xs) ! argmax_scan mp mi i xs))
         \<and> (\<forall>j < argmax_scan mp mi i xs.
               \<not> fle ((pre @ xs) ! argmax_scan mp mi i xs) ((pre @ xs) ! j))"
  using assms
proof (induction xs arbitrary: pre mp mi i)
  case Nil
  then show ?case by simp
next
  case (Cons x xs)
  have mp_nn: "mp \<noteq> NaN"
    using Cons.prems(1,2,6) by (metis nth_mem in_set_conv_decomp Un_iff set_append)
  have x_nn: "x \<noteq> NaN"
    using Cons.prems(6) by auto
  have app: "(pre @ [x]) @ xs = pre @ x # xs"
    by simp
  show ?case
  proof (cases "fle x mp")
    case True
    have "argmax_scan mp mi (Suc i) xs < length ((pre @ [x]) @ xs)
         \<and> (\<forall>y \<in> set ((pre @ [x]) @ xs). fle y (((pre @ [x]) @ xs) ! argmax_scan mp mi (Suc i) xs))
         \<and> (\<forall>j < argmax_scan mp mi (Suc i) xs.
               \<not> fle (((pre @ [x]) @ xs) ! argmax_scan mp mi (Suc i) xs) (((pre @ [x]) @ xs) ! j))"
    proof (rule Cons.IH)
      show "mi < length (pre @ [x])" using Cons.prems(1) by simp
      show "(pre @ [x]) ! mi = mp" using Cons.prems(1,2) by (simp add: nth_append)
      show "Suc i = length (pre @ [x])" using Cons.prems(3) by simp
      show "\<forall>y \<in> set (pre @ [x]). fle y mp" using Cons.prems(4) True by simp
      show "\<forall>j < mi. \<not> fle mp ((pre @ [x]) ! j)"
        using Cons.prems(1,5) by (simp add: nth_append)
      show "NaN \<notin> set ((pre @ [x]) @ xs)" using Cons.prems(6) by simp
    qed
    then show ?thesis
      unfolding app using True mp_nn by simp
  next
    case False
    then have lt: "fle mp x"
      using fle_total [OF x_nn mp_nn] by blast
    have "argmax_scan x i (Suc i) xs < length ((pre @ [x]) @ xs)
         \<and> (\<forall>y \<in> set ((pre @ [x]) @ xs). fle y (((pre @ [x]) @ xs) ! argmax_scan x i (Suc i) xs))
         \<and> (\<forall>j < argmax_scan x i (Suc i) xs.
               \<not> fle (((pre @ [x]) @ xs) ! argmax_scan x i (Suc i) xs) (((pre @ [x]) @ xs) ! j))"
    proof (rule Cons.IH)
      show "i < length (pre @ [x])" using Cons.prems(3) by simp
      show "(pre @ [x]) ! i = x" using Cons.prems(3) by simp
      show "Suc i = length (pre @ [x])" using Cons.prems(3) by simp
      show "\<forall>y \<in> set (pre @ [x]). fle y x"
        using Cons.prems(4) lt x_nn by (auto intro: fle_trans fle_refl)
      show "\<forall>j < i. \<not> fle x ((pre @ [x]) ! j)"
      proof (intro allI impI notI)
        fix j assume j: "j < i" and le: "fle x ((pre @ [x]) ! j)"
        have "fle (pre ! j) mp"
          using Cons.prems(3,4) j by simp
        then have "fle x mp"
          using le j Cons.prems(3) by (auto simp: nth_append intro: fle_trans)
        with False show False by simp
      qed
      show "NaN \<notin> set ((pre @ [x]) @ xs)" using Cons.prems(6) by simp
    qed
    then show ?thesis
      unfolding app using False mp_nn by simp
  qed
qed

lemma argmax_scan_nan:
  assumes "mi < length pre" and "pre ! mi = mp" and "i = length pre"
    and "\<forall>j < mi. pre ! j \<noteq> NaN" and "mp = NaN \<or> NaN \<notin> set pre"
    and "NaN \<in> set (pre @ xs)"
  shows "argmax_scan mp mi i xs < length (pre @ xs)
         \<and> (pre @ xs) ! argmax_scan mp mi i xs = NaN
         \<and> (\<forall>j < argmax_scan mp mi i xs. (pre @ xs) ! j \<noteq> NaN)"
  using assms
proof (induction xs arbitrary: pre mp mi i)
  case Nil
  then have "mp = NaN"
    by auto
  then show ?case
    using Nil by simp
next
  case (Cons x xs)
  have app: "(pre @ [x]) @ xs = pre @ x # xs"
    by simp
  show ?case
  proof (cases "mp = NaN")
    case True
    then show ?thesis
      using Cons.prems by (simp add: nth_append)
  next
    case False
    then have clean: "NaN \<notin> set pre"
      using Cons.prems(5) by simp
    show ?thesis
    proof (cases "fle x mp")
      case True
      then have x_nn: "x \<noteq> NaN"
        by auto
      have "argmax_scan mp mi (Suc i) xs < length ((pre @ [x]) @ xs)
         \<and> ((pre @ [x]) @ xs) ! argmax_scan mp mi (Suc i) xs = NaN
         \<and> (\<forall>j < argmax_scan mp mi (Suc i) xs. ((pre @ [x]) @ xs) ! j \<noteq> NaN)"
      proof (rule Cons.IH)
        show "mi < length (pre @ [x])" using Cons.prems(1) by simp
        show "(pre @ [x]) ! mi = mp" using Cons.prems(1,2) by (simp add: nth_append)
        show "Suc i = length (pre @ [x])" using Cons.prems(3) by simp
        show "\<forall>j < mi. (pre @ [x]) ! j \<noteq> NaN"
          using Cons.prems(1,4) by (simp add: nth_append)
        show "mp = NaN \<or> NaN \<notin> set (pre @ [x])" using clean x_nn by simp
        show "NaN \<in> set ((pre @ [x]) @ xs)" using Cons.prems(6) by simp
      qed
      then show ?thesis
        unfolding app using True False by simp
    next
      case nle: False
      have "argmax_scan x i (Suc i) xs < length ((pre @ [x]) @ xs)
         \<and> ((pre @ [x]) @ xs) ! argmax_scan x i (Suc i) xs = NaN
         \<and> (\<forall>j < argmax_scan x i (Suc i) xs. ((pre @ [x]) @ xs) ! j \<noteq> NaN)"
      proof (rule Cons.IH)
        show "i < length (pre @ [x])" using Cons.prems(3) by simp
        show "(pre @ [x]) ! i = x" using Cons.prems(3) by simp
        show "Suc i = length (pre @ [x])" using Cons.prems(3) by simp
        show "\<forall>j < i. (pre @ [x]) ! j \<noteq> NaN"
        proof (intro allI impI)
          fix j assume "j < i"
          then have "pre ! j \<in> set pre" "(pre @ [x]) ! j = pre ! j"
            using Cons.prems(3) by (simp_all add: nth_append)
          with clean show "(pre @ [x]) ! j \<noteq> NaN"
            by metis
        qed
        show "x = NaN \<or> NaN \<notin> set (pre @ [x])" using clean by auto
        show "NaN \<in> set ((pre @ [x]) @ xs)" using Cons.prems(6) by simp
      qed
      then show ?thesis
        unfolding app using nle False by simp
    qed
  qed
qed

lemma np_argmax_props:
  assumes "xs \<noteq> []"
  shows "\<exists>b. np_argmax xs = Inr b \<and> b < length xs
           \<and> (NaN \<notin> set xs \<longrightarrow>
                 (\<forall>j < length xs. fle (xs ! j) (xs ! b)) \<and> (\<forall>j < b. \<not> fle (xs ! b) (xs ! j)))
           \<and> (NaN \<in> set xs \<longrightarrow> xs ! b = NaN \<and> (\<forall>j < b. xs ! j \<noteq> NaN))"
proof -
  obtain x rest where xs: "xs = x # rest"
    using assms by (cases xs) auto
  define b where "b = argmax_scan x 0 1 rest"
  have eq: "[x] @ rest = xs"
    by (simp add: xs)
  have res: "np_argmax xs = Inr b"
    by (simp add: np_argmax_def xs b_def)
  have nan: "b < length xs \<and> xs ! b = NaN \<and> (\<forall>j < b. xs ! j \<noteq> NaN)"
    if "NaN \<in> set xs"
  proof -
    have "NaN \<in> set ([x] @ rest)"
      using that by (simp add: xs)
    then have "argmax_scan x 0 1 rest < length ([x] @ rest)
         \<and> ([x] @ rest) ! argmax_scan x 0 1 rest = NaN
         \<and> (\<forall>j < argmax_scan x 0 1 rest. ([x] @ rest) ! j \<noteq> NaN)"
      by (intro argmax_scan_nan) auto
    then show ?thesis
      unfolding eq b_def [symmetric] .
  qed
  have mx: "b < length xs \<and> (\<forall>j < length xs. fle (xs ! j) (xs ! b))
            \<and> (\<forall>j < b. \<not> fle (xs ! b) (xs ! j))"
    if "NaN \<notin> set xs"
  proof -
    have nn: "NaN \<notin> set ([x] @ rest)"
      using that by (simp add: xs)
    then have "fle x x"
      by (auto intro: fle_refl)
    then have "argmax_scan x 0 1 rest < length ([x] @ rest)
         \<and> (\<forall>y \<in> set ([x] @ rest). fle y (([x] @ rest) ! argmax_scan x 0 1 rest))
         \<and> (\<forall>j < argmax_scan x 0 1 rest.
               \<not> fle (([x] @ rest) ! argmax_scan x 0 1 rest) (([x] @ rest) ! j))"
      using nn by (intro argmax_scan_max) auto
    then have "b < length xs \<and> (\<forall>y \<in> set xs. fle y (xs ! b))
         \<and> (\<forall>j < b. \<not> fle (xs ! b) (xs ! j))"
      unfolding eq b_def [symmetric] .
    then show ?thesis
      by (metis nth_mem)
  qed
  show ?thesis
    using res nan mx by (cases "NaN \<in> set xs") blast+
qed

section \<open>Zero volatility in a batch\<close>

lemma fdiv_zero_nonfinite: "fdiv x (Fin 0) = PInf \<or> fdiv x (Fin 0) = NInf \<or> fdiv x (Fin 0) = NaN"
  by (cases x) (auto simp: inf_of_sign_def)

lemma metrics_shape:
  assumes "calculate_portfolio_metrics_vectorized returns_array weights_batch = Inr out"
  shows "\<forall>w \<in> set weights_batch. length w = length returns_array"
proof (rule ccontr)
  assume "\<not> (\<forall>w \<in> set weights_batch. length w = length returns_array)"
  then have "calculate_portfolio_metrics_vectorized returns_array weights_batch
               = Inl (ValueError ''matmul: mismatch in core dimension'')"
    by (simp add: calculate_portfolio_metrics_vectorized_def)
  with assms show False
    by simp
qed

lemma metrics_out:
  assumes "calculate_portfolio_metrics_vectorized returns_array weights_batch
             = Inr (sharpe_ratios, returns, volatilities)"
  shows "sharpe_ratios = map (\<lambda>w. fdiv (row_return returns_array w) (row_volatility returns_array w))
                           weights_batch"
    and "returns = map (row_return returns_array) weights_batch"
    and "volatilities = map (row_volatility returns_array) weights_batch"
  using assms batch_rows [OF metrics_shape [OF assms]] by simp_all

lemma find_best_selected:
  assumes "calculate_portfolio_metrics_vectorized returns_array weights_batch
             = Inr (sharpe_ratios, returns, volatilities)"
    and "np_argmax sharpe_ratios = Inr best_idx"
  shows "find_best_portfolio_from_batch returns_array weights_batch combination
           = Inr \<lparr> stocks = combination,
                   weights = py_dict (zip combination (weights_batch ! best_idx)),
                   sharpe_ratio = sharpe_ratios ! best_idx,
                   annual_return = returns ! best_idx,
                   annual_volatility = volatilities ! best_idx \<rparr>"
  using assms by (simp add: find_best_portfolio_from_batch_def)

text \<open>
  Claim C7, amended. When a weight row of the batch has zero annualized volatility, the
  metrics computation does not fail and the row is not removed: its Sharpe ratio is the
  floating-point quotient of its return by zero, which is \<open>+inf\<close>, \<open>-inf\<close> or NaN;
  find_best_portfolio_from_batch still returns a record for the combination; and when
  that ratio is NaN and no earlier row's ratio is NaN, the record returned is this
  row's, with Sharpe ratio NaN.
\<close>

theorem zero_volatility_sample_kept:
  assumes "calculate_portfolio_metrics_vectorized returns_array weights_batch
             = Inr (sharpe_ratios, returns, volatilities)"
    and "i < length weights_batch"
    and "volatilities ! i = Fin 0"
  shows "sharpe_ratios ! i = fdiv (returns ! i) (Fin 0)
         \<and> (sharpe_ratios ! i = PInf \<or> sharpe_ratios ! i = NInf \<or> sharpe_ratios ! i = NaN)
         \<and> (\<exists>r. find_best_portfolio_from_batch returns_array weights_batch combination = Inr r)
         \<and> (sharpe_ratios ! i = NaN \<and> (\<forall>j < i. sharpe_ratios ! j \<noteq> NaN) \<longrightarrow>
               find_best_portfolio_from_batch returns_array weights_batch combination
                 = Inr \<lparr> stocks = combination,
                         weights = py_dict (zip combination (weights_batch ! i)),
                         sharpe_ratio = NaN,
                         annual_return = returns ! i,
                         annual_volatility = Fin 0 \<rparr>)"
proof -
  note out = metrics_out [OF assms(1)]
  have len: "length sharpe_ratios = length weights_batch"
    by (simp add: out(1))
  have ratio: "sharpe_ratios ! i = fdiv (returns ! i) (Fin 0)"
    using assms(2,3) by (simp add: out)
  have nonfinite: "sharpe_ratios ! i = PInf \<or> sharpe_ratios ! i = NInf \<or> sharpe_ratios ! i = NaN"
    unfolding ratio by (rule fdiv_zero_nonfinite)
  have "sharpe_ratios \<noteq> []"
    using assms(2) len by auto
  from np_argmax_props [OF this] obtain b where b: "np_argmax sharpe_ratios = Inr b"
      "b < length sharpe_ratios"
      "NaN \<in> set sharpe_ratios \<longrightarrow> sharpe_ratios ! b = NaN \<and> (\<forall>j < b. sharpe_ratios ! j \<noteq> NaN)"
    by blast
  note best = find_best_selected [OF assms(1) b(1), of combination]
  have first_nan: "find_best_portfolio_from_batch returns_array weights_batch combination
                 = Inr \<lparr> stocks = combination,
                         weights = py_dict (zip combination (weights_batch ! i)),
                         sharpe_ratio = NaN,
                         annual_return = returns ! i,
                         annual_volatility = Fin 0 \<rparr>"
    if nan: "sharpe_ratios ! i = NaN" and first: "\<forall>j < i. sharpe_ratios ! j \<noteq> NaN"
  proof -
    have "NaN \<in> set sharpe_ratios"
      using nan assms(2) len by (metis nth_mem)
    then have bn: "sharpe_ratios ! b = NaN" and bf: "\<forall>j < b. sharpe_ratios ! j \<noteq> NaN"
      using b(3) by simp_all
    have "b = i"
    proof (rule ccontr)
      assume "b \<noteq> i"
      then consider "b < i" | "i < b"
        by linarith
      then show False
        using bn bf nan first by cases auto
    qed
    then show ?thesis
      using best nan assms(3) by simp
  qed
  show ?thesis
    using ratio nonfinite best first_nan by blast
qed

lemma metrics_still:
  "calculate_portfolio_metrics_vectorized still_returns [fifths] = Inr ([NaN], [Fin 0], [Fin 0])"
  by (simp add: metrics_eval still_returns_def fifths_def)

lemma py_dict_five:
  "py_dict (zip five_stocks fifths)
     = [(''A'', Fin (1 / 5)), (''B'', Fin (1 / 5)), (''C'', Fin (1 / 5)),
        (''D'', Fin (1 / 5)), (''E'', Fin (1 / 5))]"
  by (simp add: py_dict_def five_stocks_def fifths_def)

theorem zero_volatility_sample_kept_witness:
  "calculate_portfolio_metrics_vectorized still_returns [fifths] = Inr ([NaN], [Fin 0], [Fin 0])
   \<and> (0::nat) < length [fifths]
   \<and> [Fin 0] ! 0 = Fin 0
   \<and> [NaN] ! 0 = fdiv ([Fin 0] ! 0) (Fin 0)
   \<and> find_best_portfolio_from_batch still_returns [fifths] five_stocks
        = Inr \<lparr> stocks = five_stocks,
                weights = py_dict (zip five_stocks ([fifths] ! 0)),
                sharpe_ratio = NaN,
                annual_return = [Fin 0] ! 0,
                annual_volatility = Fin 0 \<rparr>"
proof -
  have i: "(0::nat) < length [fifths]" by simp
  have v: "[Fin 0] ! 0 = Fin 0" by simp
  show ?thesis
    using metrics_still i v
      zero_volatility_sample_kept [OF metrics_still i v, of five_stocks]
    by simp
qed

lemma gvw_fifths:
  "generate_valid_weights (constant_rng (1 / 2)) 0 5 1 = Some (Inr [fifths])"
  by (simp add: gvw_constant_5 fifths_def)

text \<open>
  Claim C7 as stated fails on five assets whose prices never move: the one sampled
  weight row has zero volatility, no error is raised, and the evaluator returns that
  row as the combination's best record, with Sharpe ratio NaN.
\<close>

theorem zero_volatility_counterexample:
  "process_stock_combination (constant_rng (1 / 2)) 0 five_stocks still_returns [0, 1, 2, 3, 4] 1
     = Some (Inr (Some \<lparr> stocks = five_stocks,
                          weights = [(''A'', Fin (1 / 5)), (''B'', Fin (1 / 5)), (''C'', Fin (1 / 5)),
                                     (''D'', Fin (1 / 5)), (''E'', Fin (1 / 5))],
                          sharpe_ratio = NaN,
                          annual_return = Fin 0,
                          annual_volatility = Fin 0 \<rparr>))
   \<and> generate_valid_weights (constant_rng (1 / 2)) 0 5 1 = Some (Inr [fifths])
   \<and> calculate_portfolio_metrics_vectorized still_returns [fifths] = Inr ([NaN], [Fin 0], [Fin 0])"
proof -
  have sel: "select_columns still_returns [0, 1, 2, 3, 4] = Inr still_returns"
    by (simp add: select_column_def still_returns_def)
  have len: "int (length five_stocks) = 5"
    by (simp add: five_stocks_def)
  have best: "find_best_portfolio_from_batch still_returns [fifths] five_stocks
        = Inr \<lparr> stocks = five_stocks,
                weights = [(''A'', Fin (1 / 5)), (''B'', Fin (1 / 5)), (''C'', Fin (1 / 5)),
                           (''D'', Fin (1 / 5)), (''E'', Fin (1 / 5))],
                sharpe_ratio = NaN, annual_return = Fin 0, annual_volatility = Fin 0 \<rparr>"
    by (simp add: find_best_portfolio_from_batch_def metrics_still np_argmax_def py_dict_five)
  have "process_stock_combination (constant_rng (1 / 2)) 0 five_stocks still_returns
          [0, 1, 2, 3, 4] 1
        = Some (Inr (Some \<lparr> stocks = five_stocks,
                          weights = [(''A'', Fin (1 / 5)), (''B'', Fin (1 / 5)), (''C'', Fin (1 / 5)),
                                     (''D'', Fin (1 / 5)), (''E'', Fin (1 / 5))],
                          sharpe_ratio = NaN,
                          annual_return = Fin 0,
                          annual_volatility = Fin 0 \<rparr>))"
    unfolding process_stock_combination_def process_stock_combination_body_def
      sel len gvw_fifths
    by (simp add: best)
  then show ?thesis
    using gvw_fifths metrics_still by simp
qed

section \<open>Per-combination evaluator: properties\<close>
















section \<open>Chunking: properties\<close>

lemma length_split_sizes: "length (split_sizes ary ss) = length ss"
  by (induction ss arbitrary: ary) simp_all

lemma concat_split_sizes:
  "length ary \<le> sum_list ss \<Longrightarrow> concat (split_sizes ary ss) = ary"
proof (induction ss arbitrary: ary)
  case Nil
  then show ?case by simp
next
  case (Cons s ss)
  have "length (drop s ary) \<le> sum_list ss"
    using Cons.prems by simp
  then have "concat (split_sizes (drop s ary) ss) = drop s ary"
    by (rule Cons.IH)
  then show ?case by simp
qed

lemma lengths_split_sizes:
  "sum_list ss \<le> length ary \<Longrightarrow> map length (split_sizes ary ss) = ss"
proof (induction ss arbitrary: ary)
  case Nil
  then show ?case by simp
next
  case (Cons s ss)
  have "sum_list ss \<le> length (drop s ary)"
    using Cons.prems by simp
  then have "map length (split_sizes (drop s ary) ss) = ss"
    by (rule Cons.IH)
  moreover have "s \<le> length ary"
    using Cons.prems by simp
  ultimately show ?case by simp
qed

lemma sum_list_section_sizes:
  assumes "0 < n"
  shows "sum_list (replicate (m mod n) (m div n + 1) @ replicate (n - m mod n) (m div n)) = (m::nat)"
proof -
  have le: "m mod n \<le> n"
    using assms by simp
  have "sum_list (replicate (m mod n) (m div n + 1) @ replicate (n - m mod n) (m div n))
        = (m mod n) * (m div n + 1) + (n - m mod n) * (m div n)"
    by (simp add: sum_list_replicate)
  also have "\<dots> = m mod n + (m mod n + (n - m mod n)) * (m div n)"
    by (simp add: algebra_simps)
  also have "\<dots> = m mod n + n * (m div n)"
    using le by simp
  also have "\<dots> = m"
    by simp
  finally show ?thesis .
qed

lemma array_split_props:
  assumes "0 < n"
  shows "\<exists>chunks. array_split ary n = Inr chunks \<and> length chunks = nat n
           \<and> concat chunks = ary
           \<and> (\<forall>c \<in> set chunks. length c = length ary div nat n
                                \<or> length c = length ary div nat n + 1)"
proof -
  define ss where
    "ss = replicate (length ary mod nat n) (length ary div nat n + 1)
          @ replicate (nat n - length ary mod nat n) (length ary div nat n)"
  have pos: "0 < nat n"
    using assms by simp
  have total: "sum_list ss = length ary"
    unfolding ss_def using sum_list_section_sizes [OF pos] .
  have res: "array_split ary n = Inr (split_sizes ary ss)"
    using assms by (simp add: array_split_def ss_def Let_def)
  have len: "length (split_sizes ary ss) = nat n"
  proof -
    have "length ary mod nat n \<le> nat n"
      using pos by simp
    then show ?thesis
      by (simp add: length_split_sizes ss_def)
  qed
  have cat: "concat (split_sizes ary ss) = ary"
    using total by (simp add: concat_split_sizes)
  have lens: "map length (split_sizes ary ss) = ss"
    using total by (simp add: lengths_split_sizes)
  have "\<forall>c \<in> set (split_sizes ary ss). length c = length ary div nat n
                                \<or> length c = length ary div nat n + 1"
  proof
    fix c assume "c \<in> set (split_sizes ary ss)"
    then have "length c \<in> set (map length (split_sizes ary ss))"
      by simp
    then have "length c \<in> set ss"
      using lens by simp
    then show "length c = length ary div nat n \<or> length c = length ary div nat n + 1"
      by (auto simp: ss_def)
  qed
  with res len cat show ?thesis
    by blast
qed

text \<open>
  Claim C5. When no chunk size is supplied (and the worker count is not zero, where
  the floor division raises), the distributor computes
  \<open>chunkSize = min(250, max(1, total // (nWorkers * 4)))\<close> and
  \<open>nChunks = max(1, total // chunkSize)\<close>, and splits the combination list into
  exactly \<open>nChunks\<close> pieces that concatenate to the list and whose lengths differ by at
  most one. For 142506 combinations and 8 workers the chunk size is 250 and there are
  570 chunks.
\<close>

theorem chunk_auto_sizing:
  assumes "n_workers \<noteq> 0"
  shows "auto_chunk_size (int (length combinations)) n_workers
           = Inr (min 250 (max 1 (int (length combinations) div (n_workers * 4))))
         \<and> (\<exists>chunk_size n_chunks chunks.
               chunk_size = min 250 (max 1 (int (length combinations) div (n_workers * 4)))
             \<and> n_chunks = max 1 (int (length combinations) div chunk_size)
             \<and> n_chunks_of (int (length combinations)) chunk_size = Inr n_chunks
             \<and> split_combinations combinations n_workers None = Inr chunks
             \<and> length chunks = nat n_chunks
             \<and> concat chunks = combinations
             \<and> (\<forall>c \<in> set chunks. length c = length combinations div nat n_chunks
                                  \<or> length c = length combinations div nat n_chunks + 1))
         \<and> auto_chunk_size 142506 8 = Inr 250
         \<and> n_chunks_of 142506 250 = Inr 570"
proof -
  define total where "total = int (length combinations)"
  define cs where "cs = min 250 (max 1 (total div (n_workers * 4)))"
  define nc where "nc = max 1 (total div cs)"
  have auto: "auto_chunk_size total n_workers = Inr cs"
    using assms by (simp add: auto_chunk_size_def py_floordiv_def cs_def min.commute)
  have cs_pos: "0 < cs"
    by (simp add: cs_def)
  have nch: "n_chunks_of total cs = Inr nc"
    using cs_pos by (simp add: n_chunks_of_def py_floordiv_def nc_def)
  have nc_pos: "0 < nc"
    by (simp add: nc_def)
  obtain chunks where ch: "array_split combinations nc = Inr chunks"
      "length chunks = nat nc" "concat chunks = combinations"
      "\<forall>c \<in> set chunks. length c = length combinations div nat nc
                       \<or> length c = length combinations div nat nc + 1"
    using array_split_props [OF nc_pos, of combinations] by blast
  have split: "split_combinations combinations n_workers None = Inr chunks"
    using auto nch ch(1) by (simp add: split_combinations_def total_def)
  have c1: "auto_chunk_size 142506 8 = Inr 250"
    by (simp add: auto_chunk_size_def py_floordiv_def)
  have c2: "n_chunks_of 142506 250 = Inr 570"
    by (simp add: n_chunks_of_def py_floordiv_def)
  show ?thesis
    using auto nch split ch(2-4) c1 c2
    unfolding total_def [symmetric] cs_def [symmetric] nc_def [symmetric]
    by (metis cs_def nc_def)
qed

theorem chunk_auto_sizing_witness:
  "(1::int) \<noteq> 0
   \<and> auto_chunk_size (int (length [10, 20, 30, 40, 50, 60, 70, 80, 90 :: nat])) 1 = Inr 2
   \<and> split_combinations [10, 20, 30, 40, 50, 60, 70, 80, 90 :: nat] 1 None
       = Inr [[10, 20, 30], [40, 50], [60, 70], [80, 90]]"
proof -
  have h: "(1::int) \<noteq> 0" by simp
  have "split_combinations [10, 20, 30, 40, 50, 60, 70, 80, 90 :: nat] 1 None
          = Inr [[10, 20, 30], [40, 50], [60, 70], [80, 90]]"
    by code_simp
  then show ?thesis
    using h chunk_auto_sizing [OF h, of "[10, 20, 30, 40, 50, 60, 70, 80, 90 :: nat]"]
    by simp
qed

section \<open>Reduction: properties\<close>

lemma max_by_sharpe_scan_max:
  assumes "sharpe_ratio best \<noteq> NaN" and "\<forall>p \<in> set ps. sharpe_ratio p \<noteq> NaN"
  shows "max_by_sharpe_scan best ps \<in> set (best # ps)
         \<and> fle (sharpe_ratio best) (sharpe_ratio (max_by_sharpe_scan best ps))
         \<and> (\<forall>p \<in> set ps. fle (sharpe_ratio p) (sharpe_ratio (max_by_sharpe_scan best ps)))"
  using assms
proof (induction ps arbitrary: best)
  case Nil
  then show ?case by (simp add: fle_refl)
next
  case (Cons p ps)
  have p_nn: "sharpe_ratio p \<noteq> NaN" and rest_nn: "\<forall>q \<in> set ps. sharpe_ratio q \<noteq> NaN"
    using Cons.prems(2) by simp_all
  show ?case
  proof (cases "fgt (sharpe_ratio p) (sharpe_ratio best)")
    case True
    then have le: "fle (sharpe_ratio best) (sharpe_ratio p)"
      by (simp add: fgt_def)
    from Cons.IH [OF p_nn rest_nn]
    have ih: "max_by_sharpe_scan p ps \<in> set (p # ps)"
        "fle (sharpe_ratio p) (sharpe_ratio (max_by_sharpe_scan p ps))"
        "\<forall>q \<in> set ps. fle (sharpe_ratio q) (sharpe_ratio (max_by_sharpe_scan p ps))"
      by simp_all
    have "fle (sharpe_ratio best) (sharpe_ratio (max_by_sharpe_scan p ps))"
      using le ih(2) by (rule fle_trans)
    then show ?thesis
      using True ih by auto
  next
    case False
    then have le: "fle (sharpe_ratio p) (sharpe_ratio best)"
      using fle_total [OF p_nn Cons.prems(1)] by (auto simp: fgt_def)
    from Cons.IH [OF Cons.prems(1) rest_nn]
    have ih: "max_by_sharpe_scan best ps \<in> set (best # ps)"
        "fle (sharpe_ratio best) (sharpe_ratio (max_by_sharpe_scan best ps))"
        "\<forall>q \<in> set ps. fle (sharpe_ratio q) (sharpe_ratio (max_by_sharpe_scan best ps))"
      by simp_all
    have "fle (sharpe_ratio p) (sharpe_ratio (max_by_sharpe_scan best ps))"
      using le ih(2) by (rule fle_trans)
    then show ?thesis
      using False ih by auto
  qed
qed

lemma select_best_max:
  assumes "results \<noteq> []" and "\<forall>p \<in> set results. sharpe_ratio p \<noteq> NaN"
  shows "\<exists>best. select_best results = Inr best \<and> best \<in> set results
           \<and> (\<forall>p \<in> set results. fle (sharpe_ratio p) (sharpe_ratio best))"
proof -
  obtain p ps where results: "results = p # ps"
    using assms(1) by (cases results) auto
  have "sharpe_ratio p \<noteq> NaN" "\<forall>q \<in> set ps. sharpe_ratio q \<noteq> NaN"
    using assms(2) by (simp_all add: results)
  from max_by_sharpe_scan_max [OF this]
  show ?thesis
    by (simp add: select_best_def py_max_by_sharpe_def results)
qed

text \<open>
  Claim C4, amended. In the reduction of the parallel path (over the flattened
  per-chunk lists) and of the sequential path: an empty list of records raises
  \<open>ValueError\<close> with the message that no valid portfolios were found; a non-empty
  list in which no record has a NaN Sharpe ratio yields one of its records, whose
  Sharpe ratio is at least that of every collected record.
\<close>

theorem reduction_selects_maximum:
  "(flatten_results chunk_results = [] \<longrightarrow>
      reduce_parallel chunk_results
        = Inl (ValueError ''No valid portfolios found. All combinations failed.''))
   \<and> (results = [] \<longrightarrow>
      reduce_sequential results
        = Inl (ValueError ''No valid portfolios found. All combinations failed.''))
   \<and> (flatten_results chunk_results \<noteq> []
        \<and> (\<forall>p \<in> set (flatten_results chunk_results). sharpe_ratio p \<noteq> NaN) \<longrightarrow>
      (\<exists>best. reduce_parallel chunk_results = Inr best
             \<and> best \<in> set (flatten_results chunk_results)
             \<and> (\<forall>p \<in> set (flatten_results chunk_results).
                   fle (sharpe_ratio p) (sharpe_ratio best))))
   \<and> (results \<noteq> [] \<and> (\<forall>p \<in> set results. sharpe_ratio p \<noteq> NaN) \<longrightarrow>
      (\<exists>best. reduce_sequential results = Inr best
             \<and> best \<in> set results
             \<and> (\<forall>p \<in> set results. fle (sharpe_ratio p) (sharpe_ratio best))))"
  using select_best_max [of "flatten_results chunk_results"] select_best_max [of results]
  by (simp add: reduce_parallel_def reduce_sequential_def select_best_def)

theorem reduction_selects_maximum_witness:
  "reduce_parallel [[None], []] = Inl (ValueError ''No valid portfolios found. All combinations failed.'')
   \<and> reduce_sequential [] = Inl (ValueError ''No valid portfolios found. All combinations failed.'')
   \<and> reduce_parallel [[Some fair_record, None], [Some good_record]] = Inr good_record
   \<and> reduce_sequential [fair_record, good_record] = Inr good_record
   \<and> fle (sharpe_ratio fair_record) (sharpe_ratio good_record)"
proof -
  have "reduce_parallel [[Some fair_record, None], [Some good_record]] = Inr good_record"
    by (simp add: reduce_parallel_def flatten_results_def select_best_def py_max_by_sharpe_def
        fgt_def fair_record_def good_record_def)
  moreover have "reduce_sequential [fair_record, good_record] = Inr good_record"
    by (simp add: reduce_sequential_def select_best_def py_max_by_sharpe_def
        fgt_def fair_record_def good_record_def)
  moreover have "flatten_results [[None], []] = []"
    by (simp add: flatten_results_def)
  ultimately show ?thesis
    using reduction_selects_maximum [of "[[None], []]" "[fair_record, good_record]"]
      reduction_selects_maximum [of "[[Some fair_record, None], [Some good_record]]" "[]"]
    by (simp add: fair_record_def good_record_def)
qed

text \<open>
  Claim C4 as stated fails when a collected record has a NaN Sharpe ratio: no key is
  greater than NaN, so a NaN record in first place is returned whatever follows it.
\<close>

theorem reduction_nan_counterexample:
  "reduce_sequential [nan_record, good_record] = Inr nan_record
   \<and> reduce_parallel [[Some nan_record], [Some good_record]] = Inr nan_record
   \<and> sharpe_ratio nan_record = NaN
   \<and> sharpe_ratio good_record = Fin 2
   \<and> \<not> fle (sharpe_ratio good_record) (sharpe_ratio nan_record)"
  by (simp add: reduce_sequential_def reduce_parallel_def flatten_results_def select_best_def
      py_max_by_sharpe_def fgt_def nan_record_def good_record_def)

end
